theory Spec2Isabelle
  imports Main "HOL-Library.AList"
begin

section \<open>Data model\<close>

text \<open>
  The repository holds three programs, each a single Go file of package main:
  \<^item> the full program (main.go): comment stripping per document, metadata merge with the
    live secret, applier with the delete-and-recreate fallback;
  \<^item> the metadata program: comment stripping with trimming, applier that only patches
    labels and annotations (definitions carrying the suffix \<open>_meta\<close>);
  \<^item> the basic program: no comment stripping, applier without fallback (suffix
    \<open>_basic\<close>).
  Functions whose text is the same in several programs are modelled once.

  A Go map is a reference: \<open>nil\<close> or the address of a map object. The map objects live in
  a store; an object is the list of its entries, the order being the (unspecified) order
  in which \<open>range\<close> visits them. Lookup is \<open>map_of\<close>.
\<close>

datatype mapref = NilMap | MapAt nat

type_synonym entries = "(string \<times> string) list"

type_synonym store = "nat \<Rightarrow> entries"

text \<open>
  corev1.Secret, restricted to the fields the programs read or write. \<open>Labels\<close> and
  \<open>Annotations\<close> are map[string]string references. \<open>Data\<close> is a map[string][]byte; no
  function of the repository writes into a data map, so its entries are carried by value.
  \<open>CreationTimestamp\<close> is a point in time, 0 being the zero value of time.Time.
\<close>

record secret =
  Namespace :: string
  Name :: string
  UID :: string
  ResourceVersion :: string
  CreationTimestamp :: int
  Labels :: mapref
  Annotations :: mapref
  Data :: "(string \<times> string) list"

text \<open>A panic of the Go runtime. The only one the programs can raise is the write into a nil map.\<close>

datatype go_panic = NilMapAssignment

section \<open>Strings\<close>

text \<open>
  A Go string is a sequence of bytes. The functions of package strings the programs call,
  on byte strings. \<open>isSpace\<close> is unicode.IsSpace on ASCII; template text is taken to be
  ASCII, where the six characters below are all the white space there is.
\<close>

definition HasPrefix :: "string \<Rightarrow> string \<Rightarrow> bool" where
  "HasPrefix s prefix \<longleftrightarrow> length prefix \<le> length s \<and> take (length prefix) s = prefix"

definition isSpace :: "char \<Rightarrow> bool" where
  "isSpace c \<longleftrightarrow> c = CHR 0x09 \<or> c = CHR 0x0A \<or> c = CHR 0x0B \<or> c = CHR 0x0C
                 \<or> c = CHR 0x0D \<or> c = CHR '' ''"

definition TrimSpace :: "string \<Rightarrow> string" where
  "TrimSpace s = rev (dropWhile isSpace (rev (dropWhile isSpace s)))"

text \<open>
  strings.Split cuts at the leftmost occurrences of the separator, which do not overlap.
  \<open>cur\<close> is the piece read so far. The programs call it with the separators newline and
  \<open>---\<close> only; on the empty separator Go returns the characters one by one.
\<close>

function Split_from :: "string \<Rightarrow> string \<Rightarrow> string \<Rightarrow> string list" where
  "Split_from sep cur s =
     (if sep = [] then map (\<lambda>c. [c]) s
      else if HasPrefix s sep then cur # Split_from sep [] (drop (length sep) s)
      else (case s of [] \<Rightarrow> [cur] | c # s' \<Rightarrow> Split_from sep (cur @ [c]) s'))"
  by pat_completeness auto
termination
  by (relation "measure (\<lambda>(sep, cur, s). length s)") (auto simp: HasPrefix_def neq_Nil_conv)

definition Split :: "string \<Rightarrow> string \<Rightarrow> string list" where
  "Split s sep = Split_from sep [] s"

fun Join :: "string list \<Rightarrow> string \<Rightarrow> string" where
  "Join [] sep = []"
| "Join [e] sep = e"
| "Join (e # elems) sep = e @ sep @ Join elems sep"

abbreviation newline :: string where
  "newline \<equiv> [CHR 0x0A]"

section \<open>Document parser: comment stripping\<close>

text \<open>removeComments of the full program: a line is dropped when it starts with the marker.\<close>

fun removeComments_loop :: "string list \<Rightarrow> string list \<Rightarrow> string list" where
  "removeComments_loop result [] = result"
| "removeComments_loop result (line # lines) =
     (if HasPrefix line ''#'' then removeComments_loop result lines
      else removeComments_loop (result @ [line]) lines)"

definition removeComments :: "string \<Rightarrow> string" where
  "removeComments doc = Join (removeComments_loop [] (Split doc newline)) newline"

text \<open>removeComments of the metadata program: the line is trimmed before the test.\<close>

fun removeComments_meta_loop :: "string list \<Rightarrow> string list \<Rightarrow> string list" where
  "removeComments_meta_loop result [] = result"
| "removeComments_meta_loop result (line # lines) =
     (let trimmed = TrimSpace line in
      if \<not> HasPrefix trimmed ''#'' then removeComments_meta_loop (result @ [line]) lines
      else removeComments_meta_loop result lines)"

definition removeComments_meta :: "string \<Rightarrow> string" where
  "removeComments_meta content =
     Join (removeComments_meta_loop [] (Split content newline)) newline"

section \<open>Reconciler: the metadata merge\<close>

text \<open>The entries \<open>range\<close> visits: none for the nil map.\<close>

definition entries_of :: "store \<Rightarrow> mapref \<Rightarrow> entries" where
  "entries_of st m = (case m of NilMap \<Rightarrow> [] | MapAt a \<Rightarrow> st a)"

text \<open>The statement \<open>annotations[k] = v\<close>: a write into the nil map panics.\<close>

fun assign :: "mapref \<Rightarrow> string \<Rightarrow> string \<Rightarrow> store \<Rightarrow> go_panic + store" where
  "assign NilMap k v st = Inl NilMapAssignment"
| "assign (MapAt a) k v st = Inr (st(a := AList.update k v (st a)))"

text \<open>
  The loop \<open>for k, v := range annotationsToMerge { annotations[k] = v }\<close>, over the entries
  of the map being merged in as they stand when the loop starts.
\<close>

fun merge_loop :: "mapref \<Rightarrow> entries \<Rightarrow> store \<Rightarrow> go_panic + store" where
  "merge_loop annotations [] st = Inr st"
| "merge_loop annotations ((k, v) # rest) st =
     (case assign annotations k v st of
        Inl p \<Rightarrow> Inl p
      | Inr st' \<Rightarrow> merge_loop annotations rest st')"

definition mergeMapStringString :: "mapref \<Rightarrow> mapref \<Rightarrow> store \<Rightarrow> go_panic + (mapref \<times> store)" where
  "mergeMapStringString annotations annotationsToMerge st =
     (case merge_loop annotations (entries_of st annotationsToMerge) st of
        Inl p \<Rightarrow> Inl p
      | Inr st' \<Rightarrow> Inr (annotations, st'))"

text \<open>
  mergeAnnotations (metadata and basic programs) and mergeLabels (metadata program) have
  the body of mergeMapStringString, with the parameters renamed.
\<close>

definition mergeAnnotations :: "mapref \<Rightarrow> mapref \<Rightarrow> store \<Rightarrow> go_panic + (mapref \<times> store)" where
  "mergeAnnotations annotations annotationsToMerge st =
     (case merge_loop annotations (entries_of st annotationsToMerge) st of
        Inl p \<Rightarrow> Inl p
      | Inr st' \<Rightarrow> Inr (annotations, st'))"

definition mergeLabels :: "mapref \<Rightarrow> mapref \<Rightarrow> store \<Rightarrow> go_panic + (mapref \<times> store)" where
  "mergeLabels labels labelsToMerge st =
     (case merge_loop labels (entries_of st labelsToMerge) st of
        Inl p \<Rightarrow> Inl p
      | Inr st' \<Rightarrow> Inr (labels, st'))"

text \<open>
  A store for the examples: map object 0 is \<open>{x: 0, y: 2}\<close> (metadata of a live secret),
  map object 1 is \<open>{x: 1}\<close> (metadata of a template), every other map object is empty.
\<close>

definition example_store :: store where
  "example_store = (\<lambda>_. [])(0 := [(''x'', ''0''), (''y'', ''2'')], 1 := [(''x'', ''1'')])"

section \<open>Namespace indexer\<close>

text \<open>The inner loop of secretNamespaces: is the namespace already in the slice?\<close>

fun namespace_seen :: "string \<Rightarrow> string list \<Rightarrow> bool" where
  "namespace_seen s [] = False"
| "namespace_seen s (n # namespaces) = (if s = n then True else namespace_seen s namespaces)"

text \<open>The outer loop, the slice \<open>namespaces\<close> being the accumulator.\<close>

fun secretNamespaces_loop :: "string list \<Rightarrow> secret list \<Rightarrow> string list" where
  "secretNamespaces_loop namespaces [] = namespaces"
| "secretNamespaces_loop namespaces (secret # secrets) =
     (if namespace_seen (Namespace secret) namespaces
      then secretNamespaces_loop namespaces secrets
      else secretNamespaces_loop (namespaces @ [Namespace secret]) secrets)"

definition secretNamespaces :: "secret list \<Rightarrow> string list" where
  "secretNamespaces secrets = secretNamespaces_loop [] secrets"

text \<open>
  The contract in the words of the specification: the distinct names in first-seen order.
  The first name is kept, its later occurrences are dropped, and so on.
\<close>

fun first_seen :: "string list \<Rightarrow> string list" where
  "first_seen [] = []"
| "first_seen (n # ns) = n # first_seen (filter (\<lambda>m. m \<noteq> n) ns)"

section \<open>Reconciler\<close>

text \<open>
  updateSecretData of the full program. \<open>newSecrets\<close> is a slice of pointers to the parsed
  templates, one object each; \<open>existingSecrets\<close> is a slice of values. The inner loop
  copies each live secret into the loop variable \<open>es\<close> (the copy shares the map objects of
  the live secret) and, at the first match, merges the template's maps into the maps of
  \<open>es\<close>, stores the address of \<open>es\<close> in the slice in place of the template, and goes on with
  the next template. The function's error result is always nil.
\<close>

fun updateSecretData_inner :: "secret \<Rightarrow> secret list \<Rightarrow> store \<Rightarrow> go_panic + (secret \<times> store)" where
  "updateSecretData_inner ns [] st = Inr (ns, st)"
| "updateSecretData_inner ns (es # existingSecrets) st =
     (if Name ns = Name es \<and> Namespace ns = Namespace es then
        (case mergeMapStringString (Annotations es) (Annotations ns) st of
           Inl p \<Rightarrow> Inl p
         | Inr (a, st1) \<Rightarrow>
            (case mergeMapStringString (Labels es) (Labels ns) st1 of
               Inl p \<Rightarrow> Inl p
             | Inr (lb, st2) \<Rightarrow> Inr (es\<lparr>Annotations := a, Labels := lb\<rparr>, st2)))
      else updateSecretData_inner ns existingSecrets st)"

fun updateSecretData :: "secret list \<Rightarrow> secret list \<Rightarrow> store \<Rightarrow> go_panic + (secret list \<times> store)" where
  "updateSecretData [] existingSecrets st = Inr ([], st)"
| "updateSecretData (ns # newSecrets) existingSecrets st =
     (case updateSecretData_inner ns existingSecrets st of
        Inl p \<Rightarrow> Inl p
      | Inr (r, st1) \<Rightarrow>
         (case updateSecretData newSecrets existingSecrets st1 of
            Inl p \<Rightarrow> Inl p
          | Inr (rs, st2) \<Rightarrow> Inr (r # rs, st2)))"

text \<open>
  updateSecretData of the basic program: both arguments of each merge are maps of the
  template (\<open>ls\<close> is \<open>newSecrets[i]\<close>), and the result replaces the maps of the copied live
  secret.
\<close>

fun updateSecretData_basic_inner :: "secret \<Rightarrow> secret list \<Rightarrow> store \<Rightarrow> go_panic + (secret \<times> store)" where
  "updateSecretData_basic_inner ls [] st = Inr (ls, st)"
| "updateSecretData_basic_inner ls (rs # existingSecrets) st =
     (if Name ls = Name rs \<and> Namespace ls = Namespace rs then
        (case mergeAnnotations (Annotations ls) (Annotations ls) st of
           Inl p \<Rightarrow> Inl p
         | Inr (a, st1) \<Rightarrow>
            (case mergeAnnotations (Labels ls) (Labels ls) st1 of
               Inl p \<Rightarrow> Inl p
             | Inr (lb, st2) \<Rightarrow> Inr (rs\<lparr>Annotations := a, Labels := lb\<rparr>, st2)))
      else updateSecretData_basic_inner ls existingSecrets st)"

fun updateSecretData_basic :: "secret list \<Rightarrow> secret list \<Rightarrow> store \<Rightarrow> go_panic + (secret list \<times> store)" where
  "updateSecretData_basic [] existingSecrets st = Inr ([], st)"
| "updateSecretData_basic (ls # newSecrets) existingSecrets st =
     (case updateSecretData_basic_inner ls existingSecrets st of
        Inl p \<Rightarrow> Inl p
      | Inr (r, st1) \<Rightarrow>
         (case updateSecretData_basic newSecrets existingSecrets st1 of
            Inl p \<Rightarrow> Inl p
          | Inr (rs, st2) \<Rightarrow> Inr (r # rs, st2)))"

text \<open>
  updateSecretMetadata of the metadata program: the template object stays in the slice and
  its two map fields are set to the merged maps of the live secret.
\<close>

fun updateSecretMetadata_inner :: "secret \<Rightarrow> secret list \<Rightarrow> store \<Rightarrow> go_panic + (secret \<times> store)" where
  "updateSecretMetadata_inner ls [] st = Inr (ls, st)"
| "updateSecretMetadata_inner ls (rs # existingSecrets) st =
     (if Name ls = Name rs \<and> Namespace ls = Namespace rs then
        (case mergeAnnotations (Annotations rs) (Annotations ls) st of
           Inl p \<Rightarrow> Inl p
         | Inr (a, st1) \<Rightarrow>
            (case mergeLabels (Labels rs) (Labels ls) st1 of
               Inl p \<Rightarrow> Inl p
             | Inr (lb, st2) \<Rightarrow> Inr (ls\<lparr>Annotations := a, Labels := lb\<rparr>, st2)))
      else updateSecretMetadata_inner ls existingSecrets st)"

fun updateSecretMetadata :: "secret list \<Rightarrow> secret list \<Rightarrow> store \<Rightarrow> go_panic + (secret list \<times> store)" where
  "updateSecretMetadata [] existingSecrets st = Inr ([], st)"
| "updateSecretMetadata (ls # newSecrets) existingSecrets st =
     (case updateSecretMetadata_inner ls existingSecrets st of
        Inl p \<Rightarrow> Inl p
      | Inr (r, st1) \<Rightarrow>
         (case updateSecretMetadata newSecrets existingSecrets st1 of
            Inl p \<Rightarrow> Inl p
          | Inr (rs, st2) \<Rightarrow> Inr (r # rs, st2)))"

text \<open>
  For the statements below: the live secret a template is matched with is the first one of
  the live sequence with the template's name and namespace, as the inner loops find it.
\<close>

definition live_match :: "secret \<Rightarrow> secret list \<Rightarrow> secret option" where
  "live_match t existingSecrets =
     find (\<lambda>es. Name t = Name es \<and> Namespace t = Namespace es) existingSecrets"

text \<open>
  The first end-to-end scenario of the specification: template \<open>a/s1\<close> with labels \<open>{x: 1}\<close>
  (here it also carries a data entry of its own), live secret \<open>a/s1\<close> with labels
  \<open>{x: 0, y: 2}\<close>, data \<open>{k: v}\<close> and identity \<open>u1\<close>.
\<close>

definition example_template :: secret where
  "example_template = \<lparr>Namespace = ''a'', Name = ''s1'', UID = [], ResourceVersion = [],
     CreationTimestamp = 0, Labels = MapAt 1, Annotations = NilMap,
     Data = [(''k'', ''stale'')]\<rparr>"

definition example_live :: secret where
  "example_live = \<lparr>Namespace = ''a'', Name = ''s1'', UID = ''u1'', ResourceVersion = ''41'',
     CreationTimestamp = 7, Labels = MapAt 0, Annotations = MapAt 2,
     Data = [(''k'', ''v'')]\<rparr>"

text \<open>
  A live secret that has labels but no annotations (its annotations map is nil), and a
  template for it that carries one annotation (map object 3).
\<close>

definition bare_live :: secret where
  "bare_live = \<lparr>Namespace = ''a'', Name = ''s1'', UID = ''u1'', ResourceVersion = ''41'',
     CreationTimestamp = 7, Labels = MapAt 0, Annotations = NilMap,
     Data = [(''k'', ''v'')]\<rparr>"

definition annotated_template :: secret where
  "annotated_template = \<lparr>Namespace = ''a'', Name = ''s1'', UID = [], ResourceVersion = [],
     CreationTimestamp = 0, Labels = NilMap, Annotations = MapAt 3, Data = []\<rparr>"

definition annotated_store :: store where
  "annotated_store = (\<lambda>_. [])(0 := [(''x'', ''0'')], 3 := [(''owner'', ''team'')])"

section \<open>Secret store gateway\<close>

text \<open>
  The cluster is an external collaborator. A call of the client is an event; the gateway
  is any function from its own (hidden) state and the call to a reply and its next state,
  so a theorem about every gateway covers every way the cluster can answer. The programs
  read two things of a reply: the error, and for List the items. The session pairs the
  gateway's state with the calls made so far, oldest first.

  The payload of a patch is the JSON text of \<open>{metadata: {annotations, labels}}\<close>; it is
  kept as the two values it is made of, a nil map (JSON null) being \<open>None\<close>.
\<close>

record patchData =
  patch_annotations :: "entries option"
  patch_labels :: "entries option"

datatype call =
    Secrets_List string
  | Secrets_Get string string
  | Secrets_Create string secret
  | Secrets_Update string secret
  | Secrets_Delete string string
  | Secrets_Patch string string patchData

record reply =
  reply_err :: "string option"
  reply_items :: "secret list"

type_synonym 'g gateway = "'g \<Rightarrow> call \<Rightarrow> reply \<times> 'g"

type_synonym 'g session = "'g \<times> call list"

definition invoke :: "'g gateway \<Rightarrow> call \<Rightarrow> 'g session \<Rightarrow> reply \<times> 'g session" where
  "invoke gw c w = (case gw (fst w) c of (r, g') \<Rightarrow> (r, (g', snd w @ [c])))"

definition getSecrets :: "'g gateway \<Rightarrow> string \<Rightarrow> 'g session \<Rightarrow> (string + secret list) \<times> 'g session" where
  "getSecrets gw ns w =
     (case invoke gw (Secrets_List ns) w of (sl, w1) \<Rightarrow>
        (case reply_err sl of
           Some jerr \<Rightarrow> (Inl jerr, w1)
         | None \<Rightarrow> (Inr (reply_items sl), w1)))"

section \<open>Applier\<close>

text \<open>
  The functions take the secret by pointer; deleteRecreateSecret writes three of its
  fields, so the object as the function leaves it is part of the result.
\<close>

definition deleteRecreateSecret :: "'g gateway \<Rightarrow> secret \<Rightarrow> 'g session \<Rightarrow> string option \<times> secret \<times> 'g session" where
  "deleteRecreateSecret gw secret0 w =
     (let secret = secret0\<lparr>ResourceVersion := [], UID := [], CreationTimestamp := 0\<rparr> in
      case invoke gw (Secrets_Get (Namespace secret) (Name secret)) w of (r1, w1) \<Rightarrow>
        (case reply_err r1 of
           Some err \<Rightarrow> (Some err, secret, w1)
         | None \<Rightarrow>
            (case invoke gw (Secrets_Delete (Namespace secret) (Name secret)) w1 of (r2, w2) \<Rightarrow>
               (case reply_err r2 of
                  Some derr \<Rightarrow> (Some derr, secret, w2)
                | None \<Rightarrow>
                   (case invoke gw (Secrets_Create (Namespace secret) secret) w2 of (r3, w3) \<Rightarrow>
                      (case reply_err r3 of
                         Some err \<Rightarrow> (Some err, secret, w3)
                       | None \<Rightarrow> (None, secret, w3)))))))"

definition ensureCreateSecret :: "'g gateway \<Rightarrow> secret \<Rightarrow> 'g session \<Rightarrow> string option \<times> secret \<times> 'g session" where
  "ensureCreateSecret gw secret w =
     (if UID secret \<noteq> [] then
        (case invoke gw (Secrets_Update (Namespace secret) secret) w of (r, w1) \<Rightarrow>
           (case reply_err r of
              Some err \<Rightarrow> deleteRecreateSecret gw secret w1
            | None \<Rightarrow> (None, secret, w1)))
      else
        (case invoke gw (Secrets_Create (Namespace secret) secret) w of (r, w1) \<Rightarrow>
           (case reply_err r of
              Some err \<Rightarrow> deleteRecreateSecret gw secret w1
            | None \<Rightarrow> (None, secret, w1))))"

fun updateK8sSecrets :: "'g gateway \<Rightarrow> secret list \<Rightarrow> 'g session \<Rightarrow> string option \<times> 'g session" where
  "updateK8sSecrets gw [] w = (None, w)"
| "updateK8sSecrets gw (secret # secrets) w =
     (case ensureCreateSecret gw secret w of (err, secret', w1) \<Rightarrow>
        (case err of
           Some e \<Rightarrow> (Some e, w1)
         | None \<Rightarrow> updateK8sSecrets gw secrets w1))"

section \<open>Maintenance mode: the metadata patch\<close>

fun Contains :: "string \<Rightarrow> string \<Rightarrow> bool" where
  "Contains [] substr = (substr = [])"
| "Contains (c # s) substr = (HasPrefix (c # s) substr \<or> Contains s substr)"

definition map_value :: "store \<Rightarrow> mapref \<Rightarrow> entries option" where
  "map_value st m = (case m of NilMap \<Rightarrow> None | MapAt a \<Rightarrow> Some (st a))"

text \<open>
  patchSecretMetadata. json.Marshal cannot fail on a map of maps of strings, so its error
  branch is not a branch of the model.
\<close>

definition patchSecretMetadata :: "'g gateway \<Rightarrow> store \<Rightarrow> secret \<Rightarrow> 'g session \<Rightarrow> string option \<times> 'g session" where
  "patchSecretMetadata gw st secret w =
     (let jd = \<lparr>patch_annotations = map_value st (Annotations secret),
                patch_labels = map_value st (Labels secret)\<rparr> in
      case invoke gw (Secrets_Patch (Namespace secret) (Name secret) jd) w of (r, w1) \<Rightarrow>
        (case reply_err r of
           Some err \<Rightarrow> if Contains err ''not found'' then (None, w1) else (Some err, w1)
         | None \<Rightarrow> (None, w1)))"

fun updateK8sSecretsMetadata :: "'g gateway \<Rightarrow> store \<Rightarrow> secret list \<Rightarrow> 'g session \<Rightarrow> string option \<times> 'g session" where
  "updateK8sSecretsMetadata gw st [] w = (None, w)"
| "updateK8sSecretsMetadata gw st (secret # secrets) w =
     (case patchSecretMetadata gw st secret w of (err, w1) \<Rightarrow>
        (case err of
           Some e \<Rightarrow> (Some e, w1)
         | None \<Rightarrow> updateK8sSecretsMetadata gw st secrets w1))"

section \<open>Document parser: files and documents\<close>

text \<open>
  What the programs read of their surroundings: the directory listing, the file contents,
  the join of a directory and a file name (path.Join), and the universal deserializer of
  the Kubernetes client. Of a decoded object the programs read whether its
  group-version-kind is the one of secrets, and whether it is a *corev1.Secret (the type
  assertion). The error built by fmt.Errorf is the text before the type's name.
\<close>

record dirent =
  IsDir :: bool
  FileName :: string

record object =
  kind_is_Secret :: bool
  as_Secret :: "secret option"

record env =
  ReadDir :: "string \<Rightarrow> string + dirent list"
  ReadFile :: "string \<Rightarrow> string + string"
  path_Join :: "string \<Rightarrow> string \<Rightarrow> string"
  Decode :: "string \<Rightarrow> string + object"

fun getSecretFiles_loop :: "env \<Rightarrow> string \<Rightarrow> string list \<Rightarrow> dirent list \<Rightarrow> string list" where
  "getSecretFiles_loop e dir secretFiles [] = secretFiles"
| "getSecretFiles_loop e dir secretFiles (file # files) =
     (if \<not> IsDir file
      then getSecretFiles_loop e dir (secretFiles @ [path_Join e dir (FileName file)]) files
      else getSecretFiles_loop e dir secretFiles files)"

text \<open>getSecretFiles has no error result: when the directory cannot be read it returns nil.\<close>

definition getSecretFiles :: "env \<Rightarrow> string \<Rightarrow> string list" where
  "getSecretFiles e dir =
     (case ReadDir e dir of
        Inl err \<Rightarrow> []
      | Inr files \<Rightarrow> getSecretFiles_loop e dir [] files)"

text \<open>The part of the document loop after the blank tests, the same in the three programs.\<close>

definition decode_document :: "env \<Rightarrow> string \<Rightarrow> secret list \<Rightarrow> string + secret list" where
  "decode_document e doc secrets =
     (case Decode e doc of
        Inl err \<Rightarrow> Inl err
      | Inr obj \<Rightarrow>
         (if kind_is_Secret obj then
            (case as_Secret obj of
               None \<Rightarrow> Inl ''unexpected object type: ''
             | Some s \<Rightarrow> Inr (secrets @ [s]))
          else Inr secrets))"

text \<open>parseFilesAsSecrets of the full program: comments are stripped document by document.\<close>

fun parse_documents :: "env \<Rightarrow> secret list \<Rightarrow> string list \<Rightarrow> string + secret list" where
  "parse_documents e secrets [] = Inr secrets"
| "parse_documents e secrets (doc0 # docs) =
     (if TrimSpace doc0 = [] then parse_documents e secrets docs
      else
        (let doc = removeComments doc0 in
         if TrimSpace doc = [] then parse_documents e secrets docs
         else
           (case decode_document e doc secrets of
              Inl err \<Rightarrow> Inl err
            | Inr secrets' \<Rightarrow> parse_documents e secrets' docs)))"

fun parse_files :: "env \<Rightarrow> secret list \<Rightarrow> string list \<Rightarrow> string + secret list" where
  "parse_files e secrets [] = Inr secrets"
| "parse_files e secrets (file # files) =
     (case ReadFile e file of
        Inl ferr \<Rightarrow> Inl ferr
      | Inr fd \<Rightarrow>
         (case parse_documents e secrets (Split fd ''---'') of
            Inl err \<Rightarrow> Inl err
          | Inr secrets' \<Rightarrow> parse_files e secrets' files))"

definition parseFilesAsSecrets :: "env \<Rightarrow> string list \<Rightarrow> string + secret list" where
  "parseFilesAsSecrets e files = parse_files e [] files"

text \<open>
  parseFilesAsSecrets of the metadata program: comments are stripped from the whole file
  before it is cut into documents.
\<close>

fun parse_documents_meta :: "env \<Rightarrow> secret list \<Rightarrow> string list \<Rightarrow> string + secret list" where
  "parse_documents_meta e secrets [] = Inr secrets"
| "parse_documents_meta e secrets (doc # docs) =
     (if TrimSpace doc = [] then parse_documents_meta e secrets docs
      else
        (case decode_document e doc secrets of
           Inl err \<Rightarrow> Inl err
         | Inr secrets' \<Rightarrow> parse_documents_meta e secrets' docs))"

fun parse_files_meta :: "env \<Rightarrow> secret list \<Rightarrow> string list \<Rightarrow> string + secret list" where
  "parse_files_meta e secrets [] = Inr secrets"
| "parse_files_meta e secrets (file # files) =
     (case ReadFile e file of
        Inl ferr \<Rightarrow> Inl ferr
      | Inr fd \<Rightarrow>
         (case parse_documents_meta e secrets (Split (removeComments_meta fd) ''---'') of
            Inl err \<Rightarrow> Inl err
          | Inr secrets' \<Rightarrow> parse_files_meta e secrets' files))"

definition parseFilesAsSecrets_meta :: "env \<Rightarrow> string list \<Rightarrow> string + secret list" where
  "parseFilesAsSecrets_meta e files = parse_files_meta e [] files"

section \<open>The run\<close>

text \<open>
  How a run ends: \<open>Done\<close> is the return of main (exit status 0), \<open>Fatal\<close> a call of
  l.Fatal (the error is logged, exit status 1), \<open>Panicked\<close> a panic of the runtime. The
  client is taken as built (init has succeeded). \<open>secretDir\<close> is the directory chosen by
  the environment variable or the first argument; \<open>st\<close> is the store holding the map
  objects of the decoded templates and of the secrets the gateway lists.
\<close>

datatype outcome = Done | Fatal string | Panicked go_panic

text \<open>The discovery loop of main: one List per namespace, the items appended.\<close>

fun list_namespaces :: "'g gateway \<Rightarrow> secret list \<Rightarrow> string list \<Rightarrow> 'g session \<Rightarrow> (string + secret list) \<times> 'g session" where
  "list_namespaces gw allSecrets [] w = (Inr allSecrets, w)"
| "list_namespaces gw allSecrets (ns # nsc) w =
     (case getSecrets gw ns w of (res, w1) \<Rightarrow>
        (case res of
           Inl err \<Rightarrow> (Inl err, w1)
         | Inr s \<Rightarrow> list_namespaces gw (allSecrets @ s) nsc w1))"

definition main :: "'g gateway \<Rightarrow> env \<Rightarrow> string \<Rightarrow> store \<Rightarrow> 'g session \<Rightarrow> outcome \<times> 'g session" where
  "main gw e secretDir st w =
     (let secretFiles = getSecretFiles e secretDir in
      case parseFilesAsSecrets e secretFiles of
        Inl err \<Rightarrow> (Fatal err, w)
      | Inr sec \<Rightarrow>
         (case list_namespaces gw [] (secretNamespaces sec) w of (res, w1) \<Rightarrow>
            (case res of
               Inl err \<Rightarrow> (Fatal err, w1)
             | Inr allSecrets \<Rightarrow>
                (case updateSecretData sec allSecrets st of
                   Inl p \<Rightarrow> (Panicked p, w1)
                 | Inr (us, st') \<Rightarrow>
                    (case updateK8sSecrets gw us w1 of (uerr, w2) \<Rightarrow>
                       (case uerr of
                          Some err \<Rightarrow> (Fatal err, w2)
                        | None \<Rightarrow> (Done, w2)))))))"

definition main_meta :: "'g gateway \<Rightarrow> env \<Rightarrow> string \<Rightarrow> store \<Rightarrow> 'g session \<Rightarrow> outcome \<times> 'g session" where
  "main_meta gw e secretDir st w =
     (let secretFiles = getSecretFiles e secretDir in
      case parseFilesAsSecrets_meta e secretFiles of
        Inl err \<Rightarrow> (Fatal err, w)
      | Inr sec \<Rightarrow>
         (case list_namespaces gw [] (secretNamespaces sec) w of (res, w1) \<Rightarrow>
            (case res of
               Inl err \<Rightarrow> (Fatal err, w1)
             | Inr allSecrets \<Rightarrow>
                (case updateSecretMetadata sec allSecrets st of
                   Inl p \<Rightarrow> (Panicked p, w1)
                 | Inr (us, st') \<Rightarrow>
                    (case updateK8sSecretsMetadata gw st' us w1 of (uerr, w2) \<Rightarrow>
                       (case uerr of
                          Some err \<Rightarrow> (Fatal err, w2)
                        | None \<Rightarrow> (Done, w2)))))))"

text \<open>The map references of the live secrets: the maps the full program's merges write into.\<close>

definition live_maps :: "secret list \<Rightarrow> mapref set" where
  "live_maps existingSecrets = Annotations ` set existingSecrets \<union> Labels ` set existingSecrets"

text \<open>
  The second end-to-end scenario of the specification: template \<open>b/s2\<close>, which has no live
  counterpart.
\<close>

definition unmatched_template :: secret where
  "unmatched_template = \<lparr>Namespace = ''b'', Name = ''s2'', UID = [], ResourceVersion = [],
     CreationTimestamp = 0, Labels = MapAt 1, Annotations = NilMap, Data = []\<rparr>"

text \<open>
  A gateway for the examples: its state is the list of the replies it will give, in order;
  when the list is used up it answers every call with success.
\<close>

definition ok_reply :: reply where
  "ok_reply = \<lparr>reply_err = None, reply_items = []\<rparr>"

definition failed_reply :: "string \<Rightarrow> reply" where
  "failed_reply err = \<lparr>reply_err = Some err, reply_items = []\<rparr>"

fun scripted_gateway :: "reply list gateway" where
  "scripted_gateway [] c = (ok_reply, [])"
| "scripted_gateway (r # script) c = (r, script)"

text \<open>
  For the statements on input errors. A document is in error when the full program decodes
  it (it is not blank, before and after comment stripping) and either the decoder fails or
  the object has the kind of a secret and is not a *corev1.Secret. A file is in error when
  it cannot be read or one of its documents is in error.
\<close>

definition document_error :: "env \<Rightarrow> string \<Rightarrow> bool" where
  "document_error e doc0 \<longleftrightarrow>
     TrimSpace doc0 \<noteq> [] \<and> TrimSpace (removeComments doc0) \<noteq> [] \<and>
     (case Decode e (removeComments doc0) of
        Inl err \<Rightarrow> True
      | Inr obj \<Rightarrow> kind_is_Secret obj \<and> as_Secret obj = None)"

definition file_error :: "env \<Rightarrow> string \<Rightarrow> bool" where
  "file_error e file \<longleftrightarrow>
     (case ReadFile e file of
        Inl ferr \<Rightarrow> True
      | Inr fd \<Rightarrow> list_ex (document_error e) (Split fd ''---''))"

text \<open>The calls of the maintenance mode: List and Patch.\<close>

fun list_or_patch :: "call \<Rightarrow> bool" where
  "list_or_patch (Secrets_List ns) = True"
| "list_or_patch (Secrets_Patch ns name jd) = True"
| "list_or_patch c = False"

text \<open>
  Surroundings for the examples. In the first the template directory cannot be read. In
  the second it holds one file, which cannot be read. In the third the file holds a
  comment line and one document, which decodes to the template of the first scenario.
\<close>

definition unreadable_directory :: env where
  "unreadable_directory =
     \<lparr>ReadDir = (\<lambda>dir. Inl ''permission denied''),
      ReadFile = (\<lambda>file. Inl ''no such file''),
      path_Join = (\<lambda>dir name. dir @ ''/'' @ name),
      Decode = (\<lambda>doc. Inl ''no kind'')\<rparr>"

definition unreadable_file :: env where
  "unreadable_file =
     \<lparr>ReadDir = (\<lambda>dir. Inr [\<lparr>IsDir = False, FileName = ''s1.yaml''\<rparr>]),
      ReadFile = (\<lambda>file. Inl ''permission denied''),
      path_Join = (\<lambda>dir name. dir @ ''/'' @ name),
      Decode = (\<lambda>doc. Inl ''no kind'')\<rparr>"

definition one_template :: env where
  "one_template =
     \<lparr>ReadDir = (\<lambda>dir. Inr [\<lparr>IsDir = False, FileName = ''s1.yaml''\<rparr>]),
      ReadFile = (\<lambda>file. Inr (''# tls'' @ newline @ ''kind: Secret'')),
      path_Join = (\<lambda>dir name. dir @ ''/'' @ name),
      Decode = (\<lambda>doc. Inr \<lparr>kind_is_Secret = True, as_Secret = Some example_template\<rparr>)\<rparr>"

text \<open>
  For the statement on the merged metadata: no map object is shared. The two maps of a
  live secret are different objects, two different live secrets have no map object in
  common, and no template has a map object in common with a live secret (the parser and
  the client allocate the maps of every object they decode).
\<close>

definition metadata_maps :: "secret \<Rightarrow> mapref set" where
  "metadata_maps s = {Annotations s, Labels s}"

definition separate_maps :: "secret list \<Rightarrow> secret list \<Rightarrow> bool" where
  "separate_maps newSecrets existingSecrets \<longleftrightarrow>
     (\<forall>es \<in> set existingSecrets. Annotations es = Labels es \<longrightarrow> Annotations es = NilMap) \<and>
     (\<forall>es \<in> set existingSecrets. \<forall>es' \<in> set existingSecrets.
        es \<noteq> es' \<longrightarrow> metadata_maps es \<inter> metadata_maps es' \<subseteq> {NilMap}) \<and>
     (\<forall>t \<in> set newSecrets. \<forall>es \<in> set existingSecrets.
        metadata_maps t \<inter> metadata_maps es \<subseteq> {NilMap})"

section \<open>Namespace indexer: results\<close>

lemma namespace_seen_iff: "namespace_seen s namespaces \<longleftrightarrow> s \<in> set namespaces"
  by (induction namespaces) auto

lemma set_first_seen: "set (first_seen ns) = set ns"
  by (induction ns rule: first_seen.induct) auto

lemma distinct_first_seen: "distinct (first_seen ns)"
  by (induction ns rule: first_seen.induct) (auto simp: set_first_seen)

lemma first_seen_distinct_id: "distinct ns \<Longrightarrow> first_seen ns = ns"
  by (induction ns rule: first_seen.induct) (auto simp: filter_id_conv)

lemma secretNamespaces_loop_first_seen:
  "distinct acc \<Longrightarrow>
   secretNamespaces_loop acc secrets =
     acc @ first_seen (filter (\<lambda>n. n \<notin> set acc) (map Namespace secrets))"
proof (induction secrets arbitrary: acc)
  case Nil
  show ?case by simp
next
  case (Cons s secrets)
  show ?case
  proof (cases "Namespace s \<in> set acc")
    case True
    then show ?thesis using Cons by (simp add: namespace_seen_iff)
  next
    case False
    have d: "distinct (acc @ [Namespace s])" using Cons.prems False by simp
    have f: "filter (\<lambda>n. n \<notin> set (acc @ [Namespace s])) (map Namespace secrets) =
             filter (\<lambda>m. m \<noteq> Namespace s) (filter (\<lambda>n. n \<notin> set acc) (map Namespace secrets))"
      by (induction secrets) auto
    have "secretNamespaces_loop acc (s # secrets) =
          secretNamespaces_loop (acc @ [Namespace s]) secrets"
      using False by (simp add: namespace_seen_iff)
    also have "\<dots> = (acc @ [Namespace s]) @
          first_seen (filter (\<lambda>n. n \<notin> set (acc @ [Namespace s])) (map Namespace secrets))"
      by (rule Cons.IH [OF d])
    also have "\<dots> = acc @ Namespace s #
          first_seen (filter (\<lambda>m. m \<noteq> Namespace s)
            (filter (\<lambda>n. n \<notin> set acc) (map Namespace secrets)))"
      by (simp only: f append_assoc append_Cons append_Nil)
    also have "\<dots> = acc @ first_seen (filter (\<lambda>n. n \<notin> set acc) (map Namespace (s # secrets)))"
      using False by (simp del: filter_filter)
    finally show ?thesis .
  qed
qed

lemma secretNamespaces_first_seen:
  "secretNamespaces secrets = first_seen (map Namespace secrets)"
  using secretNamespaces_loop_first_seen [of "[]" secrets]
  by (simp add: secretNamespaces_def)

text \<open>
  C10. For every sequence of templates the namespace indexer returns the distinct namespace
  names in first-seen order, unsorted: the result is the first-seen sequence of the
  templates' namespaces (so it is a function of that sequence alone), it has no duplicates
  and holds exactly the namespaces of the templates; indexing templates built from its own
  output (any template \<open>t\<close> with its namespace replaced by each name in turn) gives the same
  sequence again.
\<close>

theorem secretNamespaces_first_seen_distinct_stable:
  "secretNamespaces secrets = first_seen (map Namespace secrets)
   \<and> distinct (secretNamespaces secrets)
   \<and> set (secretNamespaces secrets) = Namespace ` set secrets
   \<and> secretNamespaces (map (\<lambda>n. t\<lparr>Namespace := n\<rparr>) (secretNamespaces secrets))
       = secretNamespaces secrets"
proof -
  let ?r = "secretNamespaces secrets"
  have a: "?r = first_seen (map Namespace secrets)"
    by (rule secretNamespaces_first_seen)
  have b: "distinct ?r" by (simp add: a distinct_first_seen)
  have c: "set ?r = Namespace ` set secrets" by (simp add: a set_first_seen)
  have "map Namespace (map (\<lambda>n. t\<lparr>Namespace := n\<rparr>) ?r) = ?r"
    by (simp add: comp_def)
  then have d: "secretNamespaces (map (\<lambda>n. t\<lparr>Namespace := n\<rparr>) ?r) = ?r"
    using first_seen_distinct_id [OF b]
    by (simp only: secretNamespaces_first_seen [of "map (\<lambda>n. t\<lparr>Namespace := n\<rparr>) ?r"])
  show ?thesis using a b c d by blast
qed

theorem secretNamespaces_first_seen_distinct_stable_witness:
  "secretNamespaces
     [example_template\<lparr>Namespace := ''b''\<rparr>, example_template\<lparr>Namespace := ''a''\<rparr>,
      example_template\<lparr>Namespace := ''b''\<rparr>, example_template\<lparr>Namespace := ''c''\<rparr>,
      example_template\<lparr>Namespace := ''a''\<rparr>] = [''b'', ''a'', ''c'']
   \<and> secretNamespaces (map (\<lambda>n. example_template\<lparr>Namespace := n\<rparr>) [''b'', ''a'', ''c''])
       = [''b'', ''a'', ''c'']"
proof -
  let ?ts = "[example_template\<lparr>Namespace := ''b''\<rparr>, example_template\<lparr>Namespace := ''a''\<rparr>,
      example_template\<lparr>Namespace := ''b''\<rparr>, example_template\<lparr>Namespace := ''c''\<rparr>,
      example_template\<lparr>Namespace := ''a''\<rparr>]"
  note t = secretNamespaces_first_seen_distinct_stable [of ?ts example_template]
  have a: "secretNamespaces ?ts = first_seen (map Namespace ?ts)" using t by blast
  have b: "first_seen (map Namespace ?ts) = [''b'', ''a'', ''c'']" by simp
  have c: "secretNamespaces (map (\<lambda>n. example_template\<lparr>Namespace := n\<rparr>) (secretNamespaces ?ts))
       = secretNamespaces ?ts" using t by blast
  show ?thesis using a b c by simp
qed

section \<open>Comment stripping: results\<close>

lemma removeComments_loop_filter:
  "removeComments_loop result lines = result @ filter (\<lambda>line. \<not> HasPrefix line ''#'') lines"
  by (induction lines arbitrary: result) auto

lemma removeComments_meta_loop_filter:
  "removeComments_meta_loop result lines =
     result @ filter (\<lambda>line. \<not> HasPrefix (TrimSpace line) ''#'') lines"
  by (induction lines arbitrary: result) (auto simp: Let_def)

text \<open>
  What the two functions do: the text is cut into lines, the lines that test as comments
  are dropped whole, the others are joined again unchanged. The full program tests the
  line as it is, the metadata program tests the trimmed line.
\<close>

lemma removeComments_lines:
  "removeComments doc =
     Join (filter (\<lambda>line. \<not> HasPrefix line ''#'') (Split doc newline)) newline"
  by (simp add: removeComments_def removeComments_loop_filter)

lemma removeComments_meta_lines:
  "removeComments_meta content =
     Join (filter (\<lambda>line. \<not> HasPrefix (TrimSpace line) ''#'') (Split content newline)) newline"
  by (simp add: removeComments_meta_def removeComments_meta_loop_filter)

lemma removeComments_meta_example:
  "removeComments_meta (''  # note'' @ newline @ ''key: v # tail'') = ''key: v # tail''"
  by (simp add: removeComments_meta_def Split_def HasPrefix_def TrimSpace_def isSpace_def)

text \<open>
  C9. The claim: a line whose first character after the leading white space is the marker
  is removed. The full program's removeComments tests the untrimmed line, so the indented
  comment line of this two-line document is kept and the document comes back as it was
  (the metadata program's function removes the line, see above).
\<close>

theorem removeComments_keeps_indented_comment:
  "removeComments (''  # note'' @ newline @ ''key: v # tail'')
     = ''  # note'' @ newline @ ''key: v # tail''"
  by (simp add: removeComments_def Split_def HasPrefix_def)

section \<open>Metadata merge: results\<close>

lemma merge_loop_NilMap:
  "merge_loop NilMap es st = (if es = [] then Inr st else Inl NilMapAssignment)"
  by (cases es) auto

lemma merge_loop_MapAt_total: "\<exists>st'. merge_loop (MapAt a) es st = Inr st'"
  by (induction es arbitrary: st) auto

lemma merge_loop_frame:
  "merge_loop m es st = Inr st' \<Longrightarrow> m \<noteq> MapAt b \<Longrightarrow> st' b = st b"
proof (induction es arbitrary: st)
  case Nil
  then show ?case by simp
next
  case (Cons e es)
  obtain k v where e: "e = (k, v)" by (cases e)
  show ?case
  proof (cases m)
    case NilMap
    then show ?thesis using Cons.prems e by simp
  next
    case (MapAt a)
    then have "merge_loop m es (st(a := AList.update k v (st a))) = Inr st'"
      using Cons.prems e by simp
    then have "st' b = (st(a := AList.update k v (st a))) b"
      using Cons.IH Cons.prems(2) by blast
    then show ?thesis using MapAt Cons.prems(2) by simp
  qed
qed

text \<open>
  What the merge writes: the base map object afterwards holds its former entries
  overridden by the entries merged in (a Go map has each key once).
\<close>

lemma merge_loop_map_of:
  "distinct (map fst es) \<Longrightarrow> merge_loop (MapAt a) es st = Inr st' \<Longrightarrow>
   map_of (st' a) = map_of (st a) ++ map_of es"
proof (induction es arbitrary: st)
  case Nil
  then show ?case by simp
next
  case (Cons e es)
  obtain k v where e: "e = (k, v)" by (cases e)
  have d: "distinct (map fst es)" and k: "k \<notin> fst ` set es"
    using Cons.prems(1) e by auto
  have run: "merge_loop (MapAt a) es (st(a := AList.update k v (st a))) = Inr st'"
    using Cons.prems(2) e by simp
  have "map_of (st' a) = map_of ((st(a := AList.update k v (st a))) a) ++ map_of es"
    using Cons.IH [OF d run] .
  also have "\<dots> = (map_of (st a))(k \<mapsto> v) ++ map_of es"
    by (simp add: update_conv')
  also have "\<dots> = (map_of (st a) ++ map_of es)(k \<mapsto> v)"
    using k by (simp add: map_add_upd_left dom_map_of_conv_image_fst)
  also have "\<dots> = map_of (st a) ++ map_of (e # es)"
    using e by simp
  finally show ?case .
qed

lemma mergeMapStringString_content:
  "mergeMapStringString m n st = Inr (r, st') \<Longrightarrow> distinct (map fst (entries_of st n)) \<Longrightarrow>
   map_of (entries_of st' m) = map_of (entries_of st m) ++ map_of (entries_of st n)"
proof (cases m)
  case NilMap
  assume run: "mergeMapStringString m n st = Inr (r, st')"
  then have "entries_of st n = []"
    using NilMap by (auto simp: mergeMapStringString_def merge_loop_NilMap split: if_splits)
  then show ?thesis using NilMap by (simp add: entries_of_def)
next
  case (MapAt a)
  assume run: "mergeMapStringString m n st = Inr (r, st')"
    and d: "distinct (map fst (entries_of st n))"
  have "merge_loop (MapAt a) (entries_of st n) st = Inr st'"
    using run MapAt by (auto simp: mergeMapStringString_def split: sum.splits)
  then have "map_of (st' a) = map_of (st a) ++ map_of (entries_of st n)"
    using merge_loop_map_of [OF d] by blast
  then show ?thesis using MapAt by (simp add: entries_of_def)
qed

lemma mergeMapStringString_returns_base:
  "mergeMapStringString m n st = Inr (r, st') \<Longrightarrow> r = m"
  by (auto simp: mergeMapStringString_def split: sum.splits)

lemma mergeMapStringString_frame:
  "mergeMapStringString m n st = Inr (r, st') \<Longrightarrow> m \<noteq> MapAt b \<Longrightarrow> st' b = st b"
  by (auto simp: mergeMapStringString_def split: sum.splits dest: merge_loop_frame)

text \<open>
  C7. The merge helper as it is written: the reference it returns is its first argument,
  the entries of the map being merged in are written into that map object, and every other
  map object of the store is left as it was; no map is allocated.
\<close>

theorem mergeMapStringString_in_place:
  "mergeMapStringString annotations annotationsToMerge st = Inr (r, st') \<Longrightarrow>
     r = annotations
     \<and> (\<forall>b. annotations \<noteq> MapAt b \<longrightarrow> st' b = st b)
     \<and> (distinct (map fst (entries_of st annotationsToMerge)) \<longrightarrow>
          map_of (entries_of st' annotations) =
            map_of (entries_of st annotations) ++ map_of (entries_of st annotationsToMerge))"
  using mergeMapStringString_returns_base [of annotations annotationsToMerge st r st']
    mergeMapStringString_frame [of annotations annotationsToMerge st r st']
    mergeMapStringString_content [of annotations annotationsToMerge st r st']
  by blast

theorem mergeMapStringString_in_place_witness:
  "mergeMapStringString (MapAt 0) (MapAt 1) example_store
     = Inr (MapAt 0, example_store(0 := [(''x'', ''1''), (''y'', ''2'')]))
   \<and> (example_store(0 := [(''x'', ''1''), (''y'', ''2'')])) 1 = example_store 1
   \<and> distinct (map fst (entries_of example_store (MapAt 1)))
   \<and> map_of [(''x'', ''1''), (''y'', ''2'')]
       = map_of (entries_of example_store (MapAt 0)) ++ map_of (entries_of example_store (MapAt 1))"
proof -
  have run: "mergeMapStringString (MapAt 0) (MapAt 1) example_store
     = Inr (MapAt 0, example_store(0 := [(''x'', ''1''), (''y'', ''2'')]))"
    by (simp add: mergeMapStringString_def entries_of_def example_store_def)
  have d: "distinct (map fst (entries_of example_store (MapAt 1)))"
    by (simp add: entries_of_def example_store_def)
  note t = mergeMapStringString_in_place [OF run]
  from t have "(example_store(0 := [(''x'', ''1''), (''y'', ''2'')])) 1 = example_store 1"
    by simp
  moreover from t d have "map_of [(''x'', ''1''), (''y'', ''2'')]
       = map_of (entries_of example_store (MapAt 0)) ++ map_of (entries_of example_store (MapAt 1))"
    by (simp add: entries_of_def)
  ultimately show ?thesis using run d by simp
qed

text \<open>
  The claim of C7 fails on the code: merging \<open>{x: 1}\<close> into the live map \<open>{x: 0, y: 2}\<close>
  returns the live map's own reference, and the live map object now reads \<open>{x: 1, y: 2}\<close>.
\<close>

theorem mergeMapStringString_mutates_base:
  "mergeMapStringString (MapAt 0) (MapAt 1) example_store
     = Inr (MapAt 0, example_store(0 := [(''x'', ''1''), (''y'', ''2'')]))
   \<and> example_store 0 = [(''x'', ''0''), (''y'', ''2'')]"
  by (simp add: mergeMapStringString_def entries_of_def example_store_def)

text \<open>When the merge panics: exactly when the base map is nil and there is an entry to write.\<close>

lemma mergeMapStringString_panics_iff:
  "mergeMapStringString m n st = Inl p \<longleftrightarrow> m = NilMap \<and> entries_of st n \<noteq> []"
proof (cases m)
  case NilMap
  then show ?thesis
    by (cases p) (simp add: mergeMapStringString_def merge_loop_NilMap)
next
  case (MapAt a)
  obtain st' where "merge_loop (MapAt a) (entries_of st n) st = Inr st'"
    using merge_loop_MapAt_total by blast
  then show ?thesis using MapAt by (simp add: mergeMapStringString_def)
qed

text \<open>
  C8. The claim: the merge succeeds on every call, also when the base map is nil and the
  map merged in is not empty. On the code that call panics. The input: a live secret
  without annotations (its annotations map is nil, as the client decodes a secret that has
  none) and a template carrying one annotation; the merge of the two annotation maps
  panics, and so does the reconciliation of the template, in the full program and in the
  metadata program.
\<close>

theorem mergeMapStringString_nil_base_panics:
  "mergeMapStringString (Annotations bare_live) (Annotations annotated_template) annotated_store
     = Inl NilMapAssignment
   \<and> updateSecretData [annotated_template] [bare_live] annotated_store = Inl NilMapAssignment
   \<and> updateSecretMetadata [annotated_template] [bare_live] annotated_store
     = Inl NilMapAssignment"
  by (simp add: mergeMapStringString_def mergeAnnotations_def entries_of_def
      bare_live_def annotated_template_def annotated_store_def)

section \<open>Reconciler: results\<close>

lemma live_match_unique:
  "distinct (map (\<lambda>s. (Namespace s, Name s)) existingSecrets) \<Longrightarrow>
   es \<in> set existingSecrets \<Longrightarrow> Name t = Name es \<Longrightarrow> Namespace t = Namespace es \<Longrightarrow>
   live_match t existingSecrets = Some es"
  unfolding live_match_def
proof (induction existingSecrets)
  case Nil
  then show ?case by simp
next
  case (Cons x xs)
  show ?case
  proof (cases "x = es")
    case True
    then show ?thesis using Cons.prems by simp
  next
    case False
    then have mem: "es \<in> set xs" using Cons.prems by simp
    have "(Namespace x, Name x) \<noteq> (Namespace es, Name es)"
      using Cons.prems(1) mem by force
    then have nm: "\<not> (Name t = Name x \<and> Namespace t = Namespace x)"
      using Cons.prems by auto
    have "find (\<lambda>es. Name t = Name es \<and> Namespace t = Namespace es) xs = Some es"
      using Cons.IH Cons.prems mem by simp
    then show ?thesis by (simp add: nm)
  qed
qed

lemma live_match_none:
  "\<forall>es \<in> set existingSecrets. \<not> (Name t = Name es \<and> Namespace t = Namespace es) \<Longrightarrow>
   live_match t existingSecrets = None"
  by (simp add: live_match_def find_None_iff)

text \<open>
  What the full program's inner loop returns when it does not panic: the template itself
  when no live secret matches, else the copy of the matched live secret (the two map
  fields it is given are its own references again).
\<close>

lemma updateSecretData_inner_result:
  "updateSecretData_inner ns existingSecrets st = Inr (r, st') \<Longrightarrow>
   r = (case live_match ns existingSecrets of None \<Rightarrow> ns | Some es \<Rightarrow> es)"
proof (induction existingSecrets)
  case Nil
  then show ?case by (simp add: live_match_def)
next
  case (Cons es rest)
  show ?case
  proof (cases "Name ns = Name es \<and> Namespace ns = Namespace es")
    case True
    then obtain a st1 lb where
      m1: "mergeMapStringString (Annotations es) (Annotations ns) st = Inr (a, st1)" and
      m2: "mergeMapStringString (Labels es) (Labels ns) st1 = Inr (lb, st')" and
      r: "r = es\<lparr>Annotations := a, Labels := lb\<rparr>"
      using Cons.prems by (auto split: sum.splits)
    have "a = Annotations es" "lb = Labels es"
      using m1 m2 by (auto dest: mergeMapStringString_returns_base)
    then have "r = es" using r by simp
    then show ?thesis using True by (simp add: live_match_def)
  next
    case False
    show ?thesis using Cons by (simp add: live_match_def False)
  qed
qed

lemma updateSecretData_result:
  "updateSecretData newSecrets existingSecrets st = Inr (rs, st') \<Longrightarrow>
   rs = map (\<lambda>ns. case live_match ns existingSecrets of None \<Rightarrow> ns | Some es \<Rightarrow> es) newSecrets"
proof (induction newSecrets arbitrary: st rs)
  case Nil
  then show ?case by simp
next
  case (Cons ns newSecrets)
  from Cons.prems obtain r st1 rs1 where
    a: "updateSecretData_inner ns existingSecrets st = Inr (r, st1)" and
    b: "updateSecretData newSecrets existingSecrets st1 = Inr (rs1, st')" and
    c: "rs = r # rs1"
    by (auto split: sum.splits)
  show ?case
    using updateSecretData_inner_result [OF a] Cons.IH [OF b] c by simp
qed

text \<open>The basic program's reconciliation never panics: each merge is of a map with itself.\<close>

lemma mergeAnnotations_self:
  "\<exists>st'. mergeAnnotations m m st = Inr (m, st')"
proof (cases m)
  case NilMap
  then show ?thesis by (simp add: mergeAnnotations_def entries_of_def)
next
  case (MapAt a)
  obtain st' where "merge_loop (MapAt a) (entries_of st m) st = Inr st'"
    using merge_loop_MapAt_total by blast
  then show ?thesis using MapAt by (simp add: mergeAnnotations_def)
qed

lemma updateSecretData_basic_inner_result:
  "\<exists>st'. updateSecretData_basic_inner ls existingSecrets st =
     Inr (case live_match ls existingSecrets of
            None \<Rightarrow> ls
          | Some rs \<Rightarrow> rs\<lparr>Annotations := Annotations ls, Labels := Labels ls\<rparr>, st')"
proof (induction existingSecrets)
  case Nil
  show ?case by (simp add: live_match_def)
next
  case (Cons rs rest)
  show ?case
  proof (cases "Name ls = Name rs \<and> Namespace ls = Namespace rs")
    case True
    obtain st1 where m1: "mergeAnnotations (Annotations ls) (Annotations ls) st
        = Inr (Annotations ls, st1)"
      using mergeAnnotations_self by blast
    obtain st2 where m2: "mergeAnnotations (Labels ls) (Labels ls) st1 = Inr (Labels ls, st2)"
      using mergeAnnotations_self by blast
    show ?thesis using True m1 m2 by (simp add: live_match_def)
  next
    case False
    show ?thesis using Cons by (simp add: live_match_def False)
  qed
qed

lemma updateSecretData_basic_result:
  "\<exists>st'. updateSecretData_basic newSecrets existingSecrets st =
     Inr (map (\<lambda>ls. case live_match ls existingSecrets of
                  None \<Rightarrow> ls
                | Some rs \<Rightarrow> rs\<lparr>Annotations := Annotations ls, Labels := Labels ls\<rparr>)
            newSecrets, st')"
proof (induction newSecrets arbitrary: st)
  case Nil
  show ?case by simp
next
  case (Cons ls newSecrets)
  obtain st1 where a: "updateSecretData_basic_inner ls existingSecrets st =
     Inr (case live_match ls existingSecrets of
            None \<Rightarrow> ls
          | Some rs \<Rightarrow> rs\<lparr>Annotations := Annotations ls, Labels := Labels ls\<rparr>, st1)"
    using updateSecretData_basic_inner_result by blast
  obtain st2 where b: "updateSecretData_basic newSecrets existingSecrets st1 =
     Inr (map (\<lambda>ls. case live_match ls existingSecrets of
                  None \<Rightarrow> ls
                | Some rs \<Rightarrow> rs\<lparr>Annotations := Annotations ls, Labels := Labels ls\<rparr>)
            newSecrets, st2)"
    using Cons.IH by blast
  show ?case using a b by simp
qed

text \<open>
  The full program's reconciliation returns when every live secret has both its maps.
\<close>

lemma mergeMapStringString_MapAt_returns:
  "\<exists>st'. mergeMapStringString (MapAt a) n st = Inr (MapAt a, st')"
proof -
  obtain st' where "merge_loop (MapAt a) (entries_of st n) st = Inr st'"
    using merge_loop_MapAt_total by blast
  then show ?thesis by (simp add: mergeMapStringString_def)
qed

lemma updateSecretData_inner_returns:
  "\<forall>es \<in> set existingSecrets. Annotations es \<noteq> NilMap \<and> Labels es \<noteq> NilMap \<Longrightarrow>
   \<exists>r st'. updateSecretData_inner ns existingSecrets st = Inr (r, st')"
proof (induction existingSecrets)
  case Nil
  show ?case by simp
next
  case (Cons es rest)
  show ?case
  proof (cases "Name ns = Name es \<and> Namespace ns = Namespace es")
    case True
    obtain a b where refs: "Annotations es = MapAt a" "Labels es = MapAt b"
      using Cons.prems by (cases "Annotations es"; cases "Labels es") auto
    obtain st1 where m1: "mergeMapStringString (MapAt a) (Annotations ns) st = Inr (MapAt a, st1)"
      using mergeMapStringString_MapAt_returns by blast
    obtain st2 where m2: "mergeMapStringString (MapAt b) (Labels ns) st1 = Inr (MapAt b, st2)"
      using mergeMapStringString_MapAt_returns by blast
    show ?thesis using True refs m1 m2 by simp
  next
    case False
    show ?thesis using Cons by (simp add: False)
  qed
qed

lemma updateSecretData_returns:
  "\<forall>es \<in> set existingSecrets. Annotations es \<noteq> NilMap \<and> Labels es \<noteq> NilMap \<Longrightarrow>
   \<exists>rs st'. updateSecretData newSecrets existingSecrets st = Inr (rs, st')"
proof (induction newSecrets arbitrary: st)
  case Nil
  show ?case by simp
next
  case (Cons ns newSecrets)
  obtain r st1 where a: "updateSecretData_inner ns existingSecrets st = Inr (r, st1)"
    using updateSecretData_inner_returns [OF Cons.prems] by blast
  obtain rs st2 where b: "updateSecretData newSecrets existingSecrets st1 = Inr (rs, st2)"
    using Cons.IH [OF Cons.prems] by blast
  show ?case using a b by simp
qed

text \<open>
  C1. A template (the i-th) has a matching live secret \<open>es\<close> in the fetched live set, whose
  (namespace, name) keys are unique as the cluster enforces. Then in every result the full
  program's updateSecretData returns, the i-th reconciled secret has the data, the
  resourceVersion and the UID of \<open>es\<close>, whatever the template carries, and it does return
  one when no live secret has a nil map; and the basic program's updateSecretData always
  returns, with the same three fields of \<open>es\<close>.
\<close>

theorem updateSecretData_keeps_live_data:
  assumes "i < length newSecrets"
    and "es \<in> set existingSecrets"
    and "Name (newSecrets ! i) = Name es"
    and "Namespace (newSecrets ! i) = Namespace es"
    and "distinct (map (\<lambda>s. (Namespace s, Name s)) existingSecrets)"
  shows "(\<forall>rs st'. updateSecretData newSecrets existingSecrets st = Inr (rs, st') \<longrightarrow>
            Data (rs ! i) = Data es \<and> ResourceVersion (rs ! i) = ResourceVersion es
            \<and> UID (rs ! i) = UID es)
       \<and> ((\<forall>es \<in> set existingSecrets. Annotations es \<noteq> NilMap \<and> Labels es \<noteq> NilMap) \<longrightarrow>
            (\<exists>rs st'. updateSecretData newSecrets existingSecrets st = Inr (rs, st')))
       \<and> (\<exists>rs st'. updateSecretData_basic newSecrets existingSecrets st = Inr (rs, st')
            \<and> Data (rs ! i) = Data es \<and> ResourceVersion (rs ! i) = ResourceVersion es
            \<and> UID (rs ! i) = UID es)"
proof -
  have m: "live_match (newSecrets ! i) existingSecrets = Some es"
    using assms by (intro live_match_unique) auto
  have full: "Data (rs ! i) = Data es \<and> ResourceVersion (rs ! i) = ResourceVersion es
            \<and> UID (rs ! i) = UID es"
    if "updateSecretData newSecrets existingSecrets st = Inr (rs, st')" for rs st'
    using updateSecretData_result [OF that] assms(1) m by simp
  obtain st' where "updateSecretData_basic newSecrets existingSecrets st =
     Inr (map (\<lambda>ls. case live_match ls existingSecrets of
                  None \<Rightarrow> ls
                | Some rs \<Rightarrow> rs\<lparr>Annotations := Annotations ls, Labels := Labels ls\<rparr>)
            newSecrets, st')"
    using updateSecretData_basic_result by blast
  then have basic: "\<exists>rs st'. updateSecretData_basic newSecrets existingSecrets st = Inr (rs, st')
            \<and> Data (rs ! i) = Data es \<and> ResourceVersion (rs ! i) = ResourceVersion es
            \<and> UID (rs ! i) = UID es"
    using assms(1) m by simp
  show ?thesis using full basic updateSecretData_returns by blast
qed


theorem updateSecretData_keeps_live_data_witness:
  "(0::nat) < length [example_template] \<and> example_live \<in> set [example_live]
   \<and> Name ([example_template] ! 0) = Name example_live
   \<and> Namespace ([example_template] ! 0) = Namespace example_live
   \<and> distinct (map (\<lambda>s. (Namespace s, Name s)) [example_live])
   \<and> Data example_template = [(''k'', ''stale'')]
   \<and> Annotations example_live \<noteq> NilMap \<and> Labels example_live \<noteq> NilMap
   \<and> (\<exists>rs st'. updateSecretData [example_template] [example_live] example_store = Inr (rs, st')
        \<and> Data (rs ! 0) = [(''k'', ''v'')] \<and> ResourceVersion (rs ! 0) = ''41''
        \<and> UID (rs ! 0) = ''u1'')
   \<and> (\<exists>rs st'. updateSecretData_basic [example_template] [example_live] example_store
          = Inr (rs, st')
        \<and> Data (rs ! 0) = [(''k'', ''v'')] \<and> ResourceVersion (rs ! 0) = ''41''
        \<and> UID (rs ! 0) = ''u1'')"
proof -
  have h1: "(0::nat) < length [example_template]" by simp
  have h2: "example_live \<in> set [example_live]" by simp
  have h3: "Name ([example_template] ! 0) = Name example_live"
    by (simp add: example_template_def example_live_def)
  have h4: "Namespace ([example_template] ! 0) = Namespace example_live"
    by (simp add: example_template_def example_live_def)
  have h5: "distinct (map (\<lambda>s. (Namespace s, Name s)) [example_live])" by simp
  have run: "\<exists>st'. updateSecretData [example_template] [example_live] example_store
      = Inr ([example_live], st')"
    by (simp add: mergeMapStringString_def entries_of_def example_template_def
        example_live_def example_store_def)
  have vals: "Data example_live = [(''k'', ''v'')]" "ResourceVersion example_live = ''41''"
    "UID example_live = ''u1''" "Data example_template = [(''k'', ''stale'')]"
    by (simp_all add: example_live_def example_template_def)
  have maps: "Annotations example_live \<noteq> NilMap" "Labels example_live \<noteq> NilMap"
    by (simp_all add: example_live_def)
  note t = updateSecretData_keeps_live_data [OF h1 h2 h3 h4 h5, of example_store]
  show ?thesis
    using t run h1 h2 h3 h4 h5 maps unfolding vals by blast
qed

lemma updateSecretData_inner_frame:
  "updateSecretData_inner ns existingSecrets st = Inr (r, st') \<Longrightarrow>
   MapAt b \<notin> live_maps existingSecrets \<Longrightarrow> st' b = st b"
proof (induction existingSecrets)
  case Nil
  then show ?case by simp
next
  case (Cons es rest)
  have na: "Annotations es \<noteq> MapAt b" and nl: "Labels es \<noteq> MapAt b"
    using Cons.prems(2) by (auto simp: live_maps_def)
  have rest: "MapAt b \<notin> live_maps rest"
    using Cons.prems(2) by (auto simp: live_maps_def)
  show ?case
  proof (cases "Name ns = Name es \<and> Namespace ns = Namespace es")
    case True
    then obtain a st1 lb where
      m1: "mergeMapStringString (Annotations es) (Annotations ns) st = Inr (a, st1)" and
      m2: "mergeMapStringString (Labels es) (Labels ns) st1 = Inr (lb, st')"
      using Cons.prems(1) by (auto split: sum.splits)
    have "st1 b = st b" using mergeMapStringString_frame [OF m1 na] .
    moreover have "st' b = st1 b" using mergeMapStringString_frame [OF m2 nl] .
    ultimately show ?thesis by simp
  next
    case False
    have "updateSecretData_inner ns rest st = Inr (r, st')"
      using Cons.prems(1) by (simp add: False)
    then show ?thesis using Cons.IH rest by blast
  qed
qed

lemma updateSecretData_frame:
  "updateSecretData newSecrets existingSecrets st = Inr (rs, st') \<Longrightarrow>
   MapAt b \<notin> live_maps existingSecrets \<Longrightarrow> st' b = st b"
proof (induction newSecrets arbitrary: st rs)
  case Nil
  then show ?case by simp
next
  case (Cons ns newSecrets)
  from Cons.prems(1) obtain r st1 rs1 where
    a: "updateSecretData_inner ns existingSecrets st = Inr (r, st1)" and
    b: "updateSecretData newSecrets existingSecrets st1 = Inr (rs1, st')"
    by (auto split: sum.splits)
  have "st1 b = st b" using updateSecretData_inner_frame [OF a Cons.prems(2)] .
  moreover have "st' b = st1 b" using Cons.IH [OF b Cons.prems(2)] .
  ultimately show ?case by simp
qed

section \<open>Applier: results\<close>

text \<open>
  C4. A template (the i-th) has no matching live secret in the fetched live set, and like
  every template of the data model it carries no identity marker. Then in every result
  updateSecretData returns, the i-th reconciled secret is that template unchanged, and
  every map object that is not a map of a live secret (so the template's own maps, which
  the parser allocated) has its entries unchanged. When the gateway accepts the Create of
  it, the applier makes that one call and no other, and returns no error.
\<close>

theorem unmatched_template_created_once:
  assumes "i < length newSecrets"
    and "\<forall>es \<in> set existingSecrets.
           \<not> (Name (newSecrets ! i) = Name es \<and> Namespace (newSecrets ! i) = Namespace es)"
    and "UID (newSecrets ! i) = []"
    and "updateSecretData newSecrets existingSecrets st = Inr (rs, st')"
    and "gw g (Secrets_Create (Namespace (newSecrets ! i)) (newSecrets ! i)) = (r, g')"
    and "reply_err r = None"
  shows "rs ! i = newSecrets ! i
       \<and> (\<forall>b. MapAt b \<notin> live_maps existingSecrets \<longrightarrow> st' b = st b)
       \<and> ensureCreateSecret gw (rs ! i) (g, log) =
           (None, newSecrets ! i,
            (g', log @ [Secrets_Create (Namespace (newSecrets ! i)) (newSecrets ! i)]))"
proof -
  have "live_match (newSecrets ! i) existingSecrets = None"
    using assms(2) by (rule live_match_none)
  then have same: "rs ! i = newSecrets ! i"
    using updateSecretData_result [OF assms(4)] assms(1) by simp
  have frame: "\<forall>b. MapAt b \<notin> live_maps existingSecrets \<longrightarrow> st' b = st b"
    using updateSecretData_frame [OF assms(4)] by blast
  have "ensureCreateSecret gw (newSecrets ! i) (g, log) =
           (None, newSecrets ! i,
            (g', log @ [Secrets_Create (Namespace (newSecrets ! i)) (newSecrets ! i)]))"
    using assms(3,5,6) by (simp add: ensureCreateSecret_def invoke_def)
  then show ?thesis using same frame by simp
qed

theorem unmatched_template_created_once_witness:
  "updateSecretData [example_template, unmatched_template] [example_live] example_store
     = Inr ([example_live, unmatched_template],
            example_store(0 := [(''x'', ''1''), (''y'', ''2'')]))
   \<and> UID unmatched_template = []
   \<and> (example_store(0 := [(''x'', ''1''), (''y'', ''2'')])) 1 = example_store 1
   \<and> ensureCreateSecret scripted_gateway unmatched_template ([], [])
       = (None, unmatched_template, ([], [Secrets_Create ''b'' unmatched_template]))"
proof -
  let ?news = "[example_template, unmatched_template]"
  have h1: "(1::nat) < length ?news" by simp
  have h2: "\<forall>es \<in> set [example_live].
           \<not> (Name (?news ! 1) = Name es \<and> Namespace (?news ! 1) = Namespace es)"
    by (simp add: unmatched_template_def example_live_def)
  have h3: "UID (?news ! 1) = []" by (simp add: unmatched_template_def)
  have h4: "updateSecretData ?news [example_live] example_store
     = Inr ([example_live, unmatched_template],
            example_store(0 := [(''x'', ''1''), (''y'', ''2'')]))"
    by (simp add: mergeMapStringString_def entries_of_def example_template_def
        unmatched_template_def example_live_def example_store_def)
  have h5: "scripted_gateway [] (Secrets_Create (Namespace (?news ! 1)) (?news ! 1))
     = (ok_reply, [])" by simp
  have h6: "reply_err ok_reply = None" by (simp add: ok_reply_def)
  have free: "MapAt 1 \<notin> live_maps [example_live]"
    by (simp add: live_maps_def example_live_def)
  note t = unmatched_template_created_once
    [where i = 1 and newSecrets = ?news and gw = scripted_gateway and g = "[]" and log = "[]",
     OF h1 h2 h3 h4 h5 h6]
  have ns: "Namespace unmatched_template = ''b''" by (simp add: unmatched_template_def)
  show ?thesis using t h3 h4 free by (simp add: ns)
qed

text \<open>
  The claim of C3 fails on the code when the Delete of the fallback fails: the gateway
  rejects the Update, answers the Get, and rejects the Delete; the applier has then made
  the calls Update, Get, Delete and returns the Delete's error. No Create is issued.
\<close>

theorem recreate_stops_after_failed_delete:
  "ensureCreateSecret scripted_gateway example_live
       ([failed_reply ''invalid'', ok_reply, failed_reply ''forbidden''], [])
     = (Some ''forbidden'',
        example_live\<lparr>ResourceVersion := [], UID := [], CreationTimestamp := 0\<rparr>,
        ([], [Secrets_Update ''a'' example_live, Secrets_Get ''a'' ''s1'',
              Secrets_Delete ''a'' ''s1'']))"
  by (simp add: ensureCreateSecret_def deleteRecreateSecret_def invoke_def
      example_live_def ok_reply_def failed_reply_def)

text \<open>
  C3, as the code has it. The Update of a secret with an identity marker fails. The applier
  clears the identity marker, the resource version and the creation timestamp of the
  object, then issues one Get. If the Get fails it returns that error, having issued no
  Delete and no Create. Otherwise it issues one Delete; if the Delete fails it returns that
  error, having issued no Create. Otherwise it issues one Create of the cleared object and
  returns what the Create returns. In each case the object is left cleared, and the calls
  are the Update followed by the calls named, in that order.
\<close>

theorem update_failure_recreate_sequence:
  assumes "UID secret \<noteq> []"
    and "gw g (Secrets_Update (Namespace secret) secret) = (ru, g1)"
    and "reply_err ru = Some uerr"
    and "cleaned = secret\<lparr>ResourceVersion := [], UID := [], CreationTimestamp := 0\<rparr>"
    and "gw g1 (Secrets_Get (Namespace secret) (Name secret)) = (rg, g2)"
    and "gw g2 (Secrets_Delete (Namespace secret) (Name secret)) = (rd, g3)"
    and "gw g3 (Secrets_Create (Namespace secret) cleaned) = (rc, g4)"
  shows "ensureCreateSecret gw secret (g, log) =
     (case reply_err rg of
        Some err \<Rightarrow>
          (Some err, cleaned,
           (g2, log @ [Secrets_Update (Namespace secret) secret,
                       Secrets_Get (Namespace secret) (Name secret)]))
      | None \<Rightarrow>
         (case reply_err rd of
            Some derr \<Rightarrow>
              (Some derr, cleaned,
               (g3, log @ [Secrets_Update (Namespace secret) secret,
                           Secrets_Get (Namespace secret) (Name secret),
                           Secrets_Delete (Namespace secret) (Name secret)]))
          | None \<Rightarrow>
              (reply_err rc, cleaned,
               (g4, log @ [Secrets_Update (Namespace secret) secret,
                           Secrets_Get (Namespace secret) (Name secret),
                           Secrets_Delete (Namespace secret) (Name secret),
                           Secrets_Create (Namespace secret) cleaned]))))"
  using assms
  by (auto simp: ensureCreateSecret_def deleteRecreateSecret_def invoke_def Let_def
      split: option.splits)

theorem update_failure_recreate_sequence_witness:
  "UID example_live \<noteq> []
   \<and> ensureCreateSecret scripted_gateway example_live ([failed_reply ''invalid''], [])
     = (None,
        example_live\<lparr>ResourceVersion := [], UID := [], CreationTimestamp := 0\<rparr>,
        ([], [Secrets_Update ''a'' example_live, Secrets_Get ''a'' ''s1'',
              Secrets_Delete ''a'' ''s1'',
              Secrets_Create ''a''
                (example_live\<lparr>ResourceVersion := [], UID := [], CreationTimestamp := 0\<rparr>)]))"
proof -
  let ?c = "example_live\<lparr>ResourceVersion := [], UID := [], CreationTimestamp := 0\<rparr>"
  have h1: "UID example_live \<noteq> []" by (simp add: example_live_def)
  have h2: "scripted_gateway [failed_reply ''invalid'']
      (Secrets_Update (Namespace example_live) example_live) = (failed_reply ''invalid'', [])"
    by simp
  have h3: "reply_err (failed_reply ''invalid'') = Some ''invalid''"
    by (simp add: failed_reply_def)
  have h5: "scripted_gateway [] (Secrets_Get (Namespace example_live) (Name example_live))
      = (ok_reply, [])" by simp
  have h6: "scripted_gateway [] (Secrets_Delete (Namespace example_live) (Name example_live))
      = (ok_reply, [])" by simp
  have h7: "scripted_gateway [] (Secrets_Create (Namespace example_live) ?c) = (ok_reply, [])"
    by simp
  note t = update_failure_recreate_sequence
    [where gw = scripted_gateway and secret = example_live and log = "[]",
     OF h1 h2 h3 refl h5 h6 h7]
  have names: "Namespace example_live = ''a''" "Name example_live = ''s1''"
    by (simp_all add: example_live_def)
  show ?thesis using t h1 by (simp add: ok_reply_def names)
qed


section \<open>Input errors\<close>

lemma decode_document_error_iff:
  "(\<exists>err. decode_document e doc secrets = Inl err) \<longleftrightarrow>
     (case Decode e doc of
        Inl err \<Rightarrow> True
      | Inr obj \<Rightarrow> kind_is_Secret obj \<and> as_Secret obj = None)"
  by (auto simp: decode_document_def split: sum.splits option.splits)

lemma parse_documents_error_iff:
  "(\<exists>err. parse_documents e secrets docs = Inl err) \<longleftrightarrow> list_ex (document_error e) docs"
proof (induction docs arbitrary: secrets)
  case Nil
  show ?case by simp
next
  case (Cons doc0 docs)
  show ?case
  proof (cases "TrimSpace doc0 = [] \<or> TrimSpace (removeComments doc0) = []")
    case True
    then have skip: "parse_documents e secrets (doc0 # docs) = parse_documents e secrets docs"
      by (auto simp: Let_def)
    have "\<not> document_error e doc0" using True by (auto simp: document_error_def)
    then have "list_ex (document_error e) (doc0 # docs) = list_ex (document_error e) docs"
      by simp
    then show ?thesis unfolding skip using Cons.IH [of secrets] by simp
  next
    case False
    then have t1: "TrimSpace doc0 \<noteq> []" and t2: "TrimSpace (removeComments doc0) \<noteq> []"
      by auto
    show ?thesis
    proof (cases "decode_document e (removeComments doc0) secrets")
      case (Inl err)
      then have "\<exists>err. decode_document e (removeComments doc0) secrets = Inl err"
        by blast
      then have "document_error e doc0"
        using t1 t2 unfolding decode_document_error_iff by (simp add: document_error_def)
      then have ex: "list_ex (document_error e) (doc0 # docs)" by simp
      have "parse_documents e secrets (doc0 # docs) = Inl err"
        using Inl t1 t2 by (simp add: Let_def)
      then have "\<exists>err. parse_documents e secrets (doc0 # docs) = Inl err" by blast
      then show ?thesis using ex by blast
    next
      case (Inr secrets')
      then have "\<not> (\<exists>err. decode_document e (removeComments doc0) secrets = Inl err)"
        by simp
      then have "\<not> document_error e doc0"
        unfolding decode_document_error_iff by (simp add: document_error_def)
      then have ex: "list_ex (document_error e) (doc0 # docs) = list_ex (document_error e) docs"
        by simp
      have step: "parse_documents e secrets (doc0 # docs) = parse_documents e secrets' docs"
        using Inr t1 t2 by (simp add: Let_def)
      show ?thesis unfolding step ex using Cons.IH [of secrets'] .
    qed
  qed
qed

lemma parse_files_error_iff:
  "(\<exists>err. parse_files e secrets files = Inl err) \<longleftrightarrow> list_ex (file_error e) files"
proof (induction files arbitrary: secrets)
  case Nil
  show ?case by simp
next
  case (Cons f fs)
  show ?case
  proof (cases "ReadFile e f")
    case (Inl ferr)
    then show ?thesis by (simp add: file_error_def)
  next
    case (Inr fd)
    show ?thesis
    proof (cases "parse_documents e secrets (Split fd ''---'')")
      case (Inl err)
      then have "\<exists>err. parse_documents e secrets (Split fd ''---'') = Inl err" by blast
      then have "list_ex (document_error e) (Split fd ''---'')"
        unfolding parse_documents_error_iff .
      then have "file_error e f" using Inr by (simp add: file_error_def)
      then have ex: "list_ex (file_error e) (f # fs)" by simp
      have "parse_files e secrets (f # fs) = Inl err" using Inl Inr by simp
      then have "\<exists>err. parse_files e secrets (f # fs) = Inl err" by blast
      then show ?thesis using ex by blast
    next
      case inr: (Inr secrets')
      then have "\<not> (\<exists>err. parse_documents e secrets (Split fd ''---'') = Inl err)" by simp
      then have "\<not> list_ex (document_error e) (Split fd ''---'')"
        unfolding parse_documents_error_iff .
      then have "\<not> file_error e f" using Inr by (simp add: file_error_def)
      then have ex: "list_ex (file_error e) (f # fs) = list_ex (file_error e) fs" by simp
      have step: "parse_files e secrets (f # fs) = parse_files e secrets' fs"
        using inr Inr by simp
      show ?thesis unfolding step ex using Cons.IH [of secrets'] .
    qed
  qed
qed

lemma main_parse_error:
  "parseFilesAsSecrets e (getSecretFiles e secretDir) = Inl err \<Longrightarrow>
   main gw e secretDir st w = (Fatal err, w)"
  by (simp add: main_def)

lemma main_unreadable_directory:
  "ReadDir e secretDir = Inl derr \<Longrightarrow> main gw e secretDir st w = (Done, w)"
  by (simp add: main_def getSecretFiles_def parseFilesAsSecrets_def secretNamespaces_def)

text \<open>
  The claim of C5 fails on the code for the unreadable template directory: getSecretFiles
  logs the error and returns nil, so the run goes on with no template and ends as a run
  that had nothing to do. It makes no call of the gateway.
\<close>

theorem main_unreadable_directory_is_done:
  "main scripted_gateway unreadable_directory ''/secrets'' example_store ([], [])
     = (Done, ([], []))"
  by (simp add: main_def getSecretFiles_def unreadable_directory_def parseFilesAsSecrets_def
      secretNamespaces_def)

text \<open>
  C5, as the code has it. When a file of the template directory is in error (it cannot be
  read, or a document of it fails to decode or decodes to a wrong type) the run is fatal
  with an error and the session is as it was: no call of the gateway has been made. When
  the template directory cannot be read the run is not fatal: it ends as done, also
  without any call of the gateway.
\<close>

theorem main_input_errors:
  "(list_ex (file_error e) (getSecretFiles e secretDir) \<longrightarrow>
      (\<exists>err. main gw e secretDir st w = (Fatal err, w)))
   \<and> (ReadDir e secretDir = Inl derr \<longrightarrow> main gw e secretDir st w = (Done, w))"
proof -
  have "\<exists>err. main gw e secretDir st w = (Fatal err, w)"
    if bad: "list_ex (file_error e) (getSecretFiles e secretDir)"
  proof -
    obtain err where "parse_files e [] (getSecretFiles e secretDir) = Inl err"
      using bad parse_files_error_iff [of e "[]" "getSecretFiles e secretDir"] by blast
    then have "main gw e secretDir st w = (Fatal err, w)"
      by (intro main_parse_error) (simp add: parseFilesAsSecrets_def)
    then show ?thesis by blast
  qed
  then show ?thesis using main_unreadable_directory by blast
qed

theorem main_input_errors_witness:
  "list_ex (file_error unreadable_file) (getSecretFiles unreadable_file ''/secrets'')
   \<and> main scripted_gateway unreadable_file ''/secrets'' example_store ([], [])
       = (Fatal ''permission denied'', ([], []))
   \<and> ReadDir unreadable_directory ''/etc'' = Inl ''permission denied''
   \<and> main scripted_gateway unreadable_directory ''/etc'' example_store
         ([failed_reply ''unused''], [])
       = (Done, ([failed_reply ''unused''], []))"
proof -
  have h1: "list_ex (file_error unreadable_file) (getSecretFiles unreadable_file ''/secrets'')"
    by (simp add: getSecretFiles_def unreadable_file_def file_error_def)
  have h2: "ReadDir unreadable_directory ''/etc'' = Inl ''permission denied''"
    by (simp add: unreadable_directory_def)
  have run: "main scripted_gateway unreadable_file ''/secrets'' example_store ([], [])
       = (Fatal ''permission denied'', ([], []))"
    by (simp add: main_def getSecretFiles_def unreadable_file_def parseFilesAsSecrets_def)
  have "\<exists>err. main scripted_gateway unreadable_file ''/secrets'' example_store ([], [])
       = (Fatal err, ([], []))"
    using main_input_errors [of unreadable_file "''/secrets''" scripted_gateway
        example_store "([], [])"] h1 by blast
  moreover have "main scripted_gateway unreadable_directory ''/etc'' example_store
         ([failed_reply ''unused''], [])
       = (Done, ([failed_reply ''unused''], []))"
    using main_input_errors [of unreadable_directory "''/etc''" scripted_gateway
        example_store "([failed_reply ''unused''], [])" "''permission denied''"] h2 by blast
  ultimately show ?thesis using h1 h2 run by simp
qed

section \<open>Maintenance mode: results\<close>

lemma getSecrets_calls:
  "\<exists>new. snd (snd (getSecrets gw ns w)) = snd w @ new \<and> list_all list_or_patch new"
proof -
  have "snd (snd (getSecrets gw ns w)) = snd w @ [Secrets_List ns]"
    by (simp add: getSecrets_def invoke_def split: prod.splits option.splits)
  then show ?thesis by simp
qed

lemma list_namespaces_calls:
  "\<exists>new. snd (snd (list_namespaces gw allSecrets nsc w)) = snd w @ new
         \<and> list_all list_or_patch new"
proof (induction nsc arbitrary: allSecrets w)
  case Nil
  show ?case by simp
next
  case (Cons ns nsc)
  obtain res w1 where g: "getSecrets gw ns w = (res, w1)" by (cases "getSecrets gw ns w")
  obtain new1 where n1: "snd w1 = snd w @ new1" "list_all list_or_patch new1"
    using getSecrets_calls [of gw ns w] g by auto
  show ?case
  proof (cases res)
    case (Inl err)
    then show ?thesis using g n1 by simp
  next
    case (Inr s)
    obtain new2 where n2:
      "snd (snd (list_namespaces gw (allSecrets @ s) nsc w1)) = snd w1 @ new2"
      "list_all list_or_patch new2"
      using Cons.IH by blast
    have "snd (snd (list_namespaces gw allSecrets (ns # nsc) w)) = snd w @ (new1 @ new2)"
      using g Inr n1 n2 by simp
    moreover have "list_all list_or_patch (new1 @ new2)" using n1 n2 by simp
    ultimately show ?thesis by blast
  qed
qed

lemma patchSecretMetadata_calls:
  "snd (snd (patchSecretMetadata gw st secret w)) =
     snd w @ [Secrets_Patch (Namespace secret) (Name secret)
                \<lparr>patch_annotations = map_value st (Annotations secret),
                 patch_labels = map_value st (Labels secret)\<rparr>]"
  by (simp add: patchSecretMetadata_def invoke_def Let_def split: prod.splits option.splits)

lemma updateK8sSecretsMetadata_calls:
  "\<exists>new. snd (snd (updateK8sSecretsMetadata gw st secrets w)) = snd w @ new
         \<and> list_all list_or_patch new"
proof (induction secrets arbitrary: w)
  case Nil
  show ?case by simp
next
  case (Cons secret secrets)
  obtain err w1 where p: "patchSecretMetadata gw st secret w = (err, w1)"
    by (cases "patchSecretMetadata gw st secret w")
  have n1: "snd w1 = snd w @ [Secrets_Patch (Namespace secret) (Name secret)
                \<lparr>patch_annotations = map_value st (Annotations secret),
                 patch_labels = map_value st (Labels secret)\<rparr>]"
    using patchSecretMetadata_calls [of gw st secret w] p by simp
  show ?case
  proof (cases err)
    case (Some e)
    then show ?thesis using p n1 by simp
  next
    case None
    obtain new2 where n2:
      "snd (snd (updateK8sSecretsMetadata gw st secrets w1)) = snd w1 @ new2"
      "list_all list_or_patch new2"
      using Cons.IH by blast
    have "snd (snd (updateK8sSecretsMetadata gw st (secret # secrets) w)) =
          snd w @ (Secrets_Patch (Namespace secret) (Name secret)
                \<lparr>patch_annotations = map_value st (Annotations secret),
                 patch_labels = map_value st (Labels secret)\<rparr> # new2)"
      using p None n1 n2 by simp
    moreover have "list_all list_or_patch (Secrets_Patch (Namespace secret) (Name secret)
                \<lparr>patch_annotations = map_value st (Annotations secret),
                 patch_labels = map_value st (Labels secret)\<rparr> # new2)"
      using n2 by simp
    ultimately show ?thesis by blast
  qed
qed

lemma main_meta_calls:
  "\<exists>new. snd (snd (main_meta gw e secretDir st w)) = snd w @ new \<and> list_all list_or_patch new"
proof (cases "parseFilesAsSecrets_meta e (getSecretFiles e secretDir)")
  case (Inl err)
  then show ?thesis by (simp add: main_meta_def)
next
  case (Inr sec)
  obtain res w1 where l: "list_namespaces gw [] (secretNamespaces sec) w = (res, w1)"
    by (cases "list_namespaces gw [] (secretNamespaces sec) w")
  obtain new1 where n1: "snd w1 = snd w @ new1" "list_all list_or_patch new1"
    using list_namespaces_calls [of gw "[]" "secretNamespaces sec" w] l by auto
  show ?thesis
  proof (cases res)
    case (Inl err)
    then show ?thesis using Inr l n1 by (simp add: main_meta_def)
  next
    case all: (Inr allSecrets)
    show ?thesis
    proof (cases "updateSecretMetadata sec allSecrets st")
      case (Inl p)
      then show ?thesis using Inr l all n1 by (simp add: main_meta_def)
    next
      case upd: (Inr res2)
      obtain us st' where res2: "res2 = (us, st')" by (cases res2)
      obtain uerr w2 where u: "updateK8sSecretsMetadata gw st' us w1 = (uerr, w2)"
        by (cases "updateK8sSecretsMetadata gw st' us w1")
      obtain new2 where n2: "snd w2 = snd w1 @ new2" "list_all list_or_patch new2"
        using updateK8sSecretsMetadata_calls [of gw st' us w1] u by auto
      have "snd (snd (main_meta gw e secretDir st w)) = snd w @ (new1 @ new2)"
        using Inr l all upd res2 u n1 n2 by (simp add: main_meta_def split: option.splits)
      moreover have "list_all list_or_patch (new1 @ new2)" using n1 n2 by simp
      ultimately show ?thesis by blast
    qed
  qed
qed

text \<open>
  C6. In maintenance mode the patch of a secret carries the secret's annotations and
  labels and nothing else. When the gateway answers it with an error whose text contains
  \<open>not found\<close>, patchSecretMetadata returns no error and has made that one call only. And
  whatever the surroundings and the gateway, the calls a run of the mode adds to the
  session are List and Patch calls: no Create, Delete, Update or Get.
\<close>

theorem maintenance_patch_not_found_is_success:
  assumes "gw g (Secrets_Patch (Namespace secret) (Name secret)
                   \<lparr>patch_annotations = map_value st (Annotations secret),
                    patch_labels = map_value st (Labels secret)\<rparr>) = (r, g')"
    and "reply_err r = Some err"
    and "Contains err ''not found''"
  shows "patchSecretMetadata gw st secret (g, log) =
           (None, (g', log @ [Secrets_Patch (Namespace secret) (Name secret)
                   \<lparr>patch_annotations = map_value st (Annotations secret),
                    patch_labels = map_value st (Labels secret)\<rparr>]))
       \<and> (\<exists>new. snd (snd (main_meta gw e secretDir st0 w)) = snd w @ new
                 \<and> list_all list_or_patch new)"
proof -
  have "patchSecretMetadata gw st secret (g, log) =
           (None, (g', log @ [Secrets_Patch (Namespace secret) (Name secret)
                   \<lparr>patch_annotations = map_value st (Annotations secret),
                    patch_labels = map_value st (Labels secret)\<rparr>]))"
    using assms by (simp add: patchSecretMetadata_def invoke_def)
  then show ?thesis using main_meta_calls by blast
qed

theorem maintenance_patch_not_found_is_success_witness:
  "Contains ''secrets s1 not found'' ''not found''
   \<and> patchSecretMetadata scripted_gateway example_store example_template
        ([failed_reply ''secrets s1 not found''], [])
      = (None, ([], [Secrets_Patch ''a'' ''s1''
           \<lparr>patch_annotations = None, patch_labels = Some [(''x'', ''1'')]\<rparr>]))
   \<and> main_meta scripted_gateway one_template ''/secrets'' example_store
        ([\<lparr>reply_err = None, reply_items = [example_live]\<rparr>,
          failed_reply ''secrets s1 not found''], [])
      = (Done, ([], [Secrets_List ''a'', Secrets_Patch ''a'' ''s1''
           \<lparr>patch_annotations = Some [],
            patch_labels = Some [(''x'', ''1''), (''y'', ''2'')]\<rparr>]))
   \<and> list_all list_or_patch [Secrets_List ''a'', Secrets_Patch ''a'' ''s1''
           \<lparr>patch_annotations = Some [],
            patch_labels = Some [(''x'', ''1''), (''y'', ''2'')]\<rparr>]"
proof -
  let ?jd = "\<lparr>patch_annotations = map_value example_store (Annotations example_template),
              patch_labels = map_value example_store (Labels example_template)\<rparr>"
  let ?script = "[\<lparr>reply_err = None, reply_items = [example_live]\<rparr>,
          failed_reply ''secrets s1 not found'']"
  have h1: "scripted_gateway [failed_reply ''secrets s1 not found'']
      (Secrets_Patch (Namespace example_template) (Name example_template) ?jd)
      = (failed_reply ''secrets s1 not found'', [])" by simp
  have h2: "reply_err (failed_reply ''secrets s1 not found'') = Some ''secrets s1 not found''"
    by (simp add: failed_reply_def)
  have h3: "Contains ''secrets s1 not found'' ''not found''"
    by (simp add: HasPrefix_def)
  have run: "main_meta scripted_gateway one_template ''/secrets'' example_store (?script, [])
      = (Done, ([], [Secrets_List ''a'', Secrets_Patch ''a'' ''s1''
           \<lparr>patch_annotations = Some [],
            patch_labels = Some [(''x'', ''1''), (''y'', ''2'')]\<rparr>]))"
    by (simp add: main_meta_def getSecretFiles_def one_template_def
        parseFilesAsSecrets_meta_def secretNamespaces_def removeComments_meta_def Split_def
        HasPrefix_def TrimSpace_def isSpace_def decode_document_def getSecrets_def invoke_def
        example_template_def example_live_def example_store_def mergeAnnotations_def
        mergeLabels_def entries_of_def patchSecretMetadata_def map_value_def failed_reply_def)
  note t = maintenance_patch_not_found_is_success
    [where gw = scripted_gateway and st = example_store and secret = example_template
       and log = "[]" and e = one_template and secretDir = "''/secrets''"
       and ?st0.0 = example_store and w = "(?script, [])", OF h1 h2 h3]
  have vals: "Namespace example_template = ''a''" "Name example_template = ''s1''"
    "map_value example_store (Annotations example_template) = None"
    "map_value example_store (Labels example_template) = Some [(''x'', ''1'')]"
    by (simp_all add: example_template_def example_store_def map_value_def)
  from t have a: "patchSecretMetadata scripted_gateway example_store example_template
        ([failed_reply ''secrets s1 not found''], [])
      = (None, ([], [Secrets_Patch ''a'' ''s1''
           \<lparr>patch_annotations = None, patch_labels = Some [(''x'', ''1'')]\<rparr>]))"
    by (simp add: vals)
  from t run have b: "list_all list_or_patch [Secrets_List ''a'', Secrets_Patch ''a'' ''s1''
           \<lparr>patch_annotations = Some [],
            patch_labels = Some [(''x'', ''1''), (''y'', ''2'')]\<rparr>]"
    by simp
  show ?thesis using h3 a run b by blast
qed


section \<open>Reconciler: the merged metadata\<close>


lemma mergeMapStringString_entries_frame:
  "mergeMapStringString m n st = Inr (r, st') \<Longrightarrow> x \<noteq> m \<or> x = NilMap \<Longrightarrow>
   entries_of st' x = entries_of st x"
proof (cases x)
  case NilMap
  then show ?thesis by (simp add: entries_of_def)
next
  case (MapAt b)
  assume "mergeMapStringString m n st = Inr (r, st')" "x \<noteq> m \<or> x = NilMap"
  then have "st' b = st b" using MapAt mergeMapStringString_frame [of m n st r st' b] by auto
  then show ?thesis using MapAt by (simp add: entries_of_def)
qed

lemma live_match_Some:
  "live_match t existingSecrets = Some es \<Longrightarrow>
   es \<in> set existingSecrets \<and> Name t = Name es \<and> Namespace t = Namespace es"
  by (auto simp: live_match_def find_Some_iff)

lemma updateSecretData_inner_unmatched:
  "live_match ns existingSecrets = None \<Longrightarrow>
   updateSecretData_inner ns existingSecrets st = Inr (ns, st)"
proof (induction existingSecrets)
  case Nil
  show ?case by simp
next
  case (Cons es rest)
  then show ?case by (auto simp: live_match_def split: if_splits)
qed

lemma updateSecretData_inner_matched:
  "live_match ns existingSecrets = Some es \<Longrightarrow>
   updateSecretData_inner ns existingSecrets st =
     (case mergeMapStringString (Annotations es) (Annotations ns) st of
        Inl p \<Rightarrow> Inl p
      | Inr (a, st1) \<Rightarrow>
         (case mergeMapStringString (Labels es) (Labels ns) st1 of
            Inl p \<Rightarrow> Inl p
          | Inr (lb, st2) \<Rightarrow> Inr (es\<lparr>Annotations := a, Labels := lb\<rparr>, st2)))"
proof (induction existingSecrets)
  case Nil
  then show ?case by (simp add: live_match_def)
next
  case (Cons x rest)
  then show ?case by (auto simp: live_match_def split: if_splits)
qed

lemma updateSecretData_inner_entries_frame:
  assumes "updateSecretData_inner ns existingSecrets st = Inr (r, st')"
    and "x = NilMap \<or> (\<forall>es. live_match ns existingSecrets = Some es \<longrightarrow> x \<notin> metadata_maps es)"
  shows "entries_of st' x = entries_of st x"
proof (cases "live_match ns existingSecrets")
  case None
  then show ?thesis using assms(1) updateSecretData_inner_unmatched [OF None, of st] by simp
next
  case (Some es)
  from assms(1) obtain a st1 lb where
    m1: "mergeMapStringString (Annotations es) (Annotations ns) st = Inr (a, st1)" and
    m2: "mergeMapStringString (Labels es) (Labels ns) st1 = Inr (lb, st')"
    unfolding updateSecretData_inner_matched [OF Some] by (auto split: sum.splits)
  have x: "(x \<noteq> Annotations es \<or> x = NilMap) \<and> (x \<noteq> Labels es \<or> x = NilMap)"
    using assms(2) Some by (auto simp: metadata_maps_def)
  have "entries_of st1 x = entries_of st x"
    using mergeMapStringString_entries_frame [OF m1] x by blast
  moreover have "entries_of st' x = entries_of st1 x"
    using mergeMapStringString_entries_frame [OF m2] x by blast
  ultimately show ?thesis by simp
qed

lemma updateSecretData_entries_frame:
  assumes "updateSecretData newSecrets existingSecrets st = Inr (rs, st')"
    and "x = NilMap \<or> (\<forall>t \<in> set newSecrets. \<forall>es. live_match t existingSecrets = Some es
                          \<longrightarrow> x \<notin> metadata_maps es)"
  shows "entries_of st' x = entries_of st x"
  using assms
proof (induction newSecrets arbitrary: st rs)
  case Nil
  then show ?case by simp
next
  case (Cons ns newSecrets)
  from Cons.prems(1) obtain r st1 rs1 where
    a: "updateSecretData_inner ns existingSecrets st = Inr (r, st1)" and
    b: "updateSecretData newSecrets existingSecrets st1 = Inr (rs1, st')"
    by (auto split: sum.splits)
  have "entries_of st1 x = entries_of st x"
    using updateSecretData_inner_entries_frame [OF a] Cons.prems(2) by auto
  moreover have "entries_of st' x = entries_of st1 x"
    using Cons.IH [OF b] Cons.prems(2) by auto
  ultimately show ?case by simp
qed

lemma updateSecretData_inner_content:
  assumes run: "updateSecretData_inner ns existingSecrets st = Inr (r, st')"
    and m: "live_match ns existingSecrets = Some es"
    and own: "Annotations es = Labels es \<longrightarrow> Annotations es = NilMap"
    and tl: "Labels ns \<noteq> Annotations es \<or> Labels ns = NilMap"
    and dl: "distinct (map fst (entries_of st (Labels ns)))"
    and da: "distinct (map fst (entries_of st (Annotations ns)))"
  shows "map_of (entries_of st' (Labels es)) =
           map_of (entries_of st (Labels es)) ++ map_of (entries_of st (Labels ns))
       \<and> map_of (entries_of st' (Annotations es)) =
           map_of (entries_of st (Annotations es)) ++ map_of (entries_of st (Annotations ns))"
proof -
  from run obtain a st1 lb where
    m1: "mergeMapStringString (Annotations es) (Annotations ns) st = Inr (a, st1)" and
    m2: "mergeMapStringString (Labels es) (Labels ns) st1 = Inr (lb, st')"
    unfolding updateSecretData_inner_matched [OF m] by (auto split: sum.splits)
  have a1: "map_of (entries_of st1 (Annotations es)) =
           map_of (entries_of st (Annotations es)) ++ map_of (entries_of st (Annotations ns))"
    using mergeMapStringString_content [OF m1 da] .
  have keep_a: "entries_of st' (Annotations es) = entries_of st1 (Annotations es)"
    using mergeMapStringString_entries_frame [OF m2, of "Annotations es"] own by auto
  have l0: "entries_of st1 (Labels es) = entries_of st (Labels es)"
    using mergeMapStringString_entries_frame [OF m1, of "Labels es"] own by auto
  have t0: "entries_of st1 (Labels ns) = entries_of st (Labels ns)"
    using mergeMapStringString_entries_frame [OF m1, of "Labels ns"] tl by auto
  have "map_of (entries_of st' (Labels es)) =
           map_of (entries_of st1 (Labels es)) ++ map_of (entries_of st1 (Labels ns))"
    using mergeMapStringString_content [OF m2] dl t0 by simp
  then show ?thesis using a1 keep_a l0 t0 by simp
qed

lemma separate_maps_tail:
  "separate_maps (t # newSecrets) existingSecrets \<Longrightarrow> separate_maps newSecrets existingSecrets"
  by (simp add: separate_maps_def)

text \<open>Templates with different keys are matched with different live secrets.\<close>

lemma live_match_other:
  assumes "live_match t existingSecrets = Some es" "live_match t' existingSecrets = Some es'"
    and "(Namespace t, Name t) \<noteq> (Namespace t', Name t')"
  shows "es \<noteq> es'"
  using assms live_match_Some [of t existingSecrets es] live_match_Some [of t' existingSecrets es']
  by auto

lemma updateSecretData_metadata_union:
  assumes "updateSecretData newSecrets existingSecrets st = Inr (rs, st')"
    and "i < length newSecrets"
    and "live_match (newSecrets ! i) existingSecrets = Some es"
    and "separate_maps newSecrets existingSecrets"
    and "distinct (map (\<lambda>s. (Namespace s, Name s)) newSecrets)"
    and "\<forall>t \<in> set newSecrets. distinct (map fst (entries_of st (Labels t)))
                              \<and> distinct (map fst (entries_of st (Annotations t)))"
  shows "map_of (entries_of st' (Labels (rs ! i))) =
           map_of (entries_of st (Labels es)) ++ map_of (entries_of st (Labels (newSecrets ! i)))
       \<and> map_of (entries_of st' (Annotations (rs ! i))) =
           map_of (entries_of st (Annotations es))
             ++ map_of (entries_of st (Annotations (newSecrets ! i)))"
proof -
  have "rs ! i = es"
    using updateSecretData_result [OF assms(1)] assms(2,3) by simp
  moreover have "map_of (entries_of st' (Labels es)) =
           map_of (entries_of st (Labels es)) ++ map_of (entries_of st (Labels (newSecrets ! i)))
       \<and> map_of (entries_of st' (Annotations es)) =
           map_of (entries_of st (Annotations es))
             ++ map_of (entries_of st (Annotations (newSecrets ! i)))"
    using assms
  proof (induction newSecrets arbitrary: i st rs)
    case Nil
    then show ?case by simp
  next
    case (Cons t0 rest)
    from Cons.prems(1) obtain r st1 rs1 where
      a: "updateSecretData_inner t0 existingSecrets st = Inr (r, st1)" and
      b: "updateSecretData rest existingSecrets st1 = Inr (rs1, st')"
      by (auto split: sum.splits)
    have sep: "separate_maps (t0 # rest) existingSecrets" by (rule Cons.prems(4))
    have es_in: "es \<in> set existingSecrets"
      using live_match_Some [OF Cons.prems(3)] by simp
    show ?case
    proof (cases i)
      case 0
      then have m: "live_match t0 existingSecrets = Some es" using Cons.prems(3) by simp
      have own: "Annotations es = Labels es \<longrightarrow> Annotations es = NilMap"
        using sep es_in by (simp add: separate_maps_def)
      have "metadata_maps t0 \<inter> metadata_maps es \<subseteq> {NilMap}"
        using sep es_in by (simp add: separate_maps_def)
      then have tl: "Labels t0 \<noteq> Annotations es \<or> Labels t0 = NilMap"
        by (auto simp: metadata_maps_def)
      have d: "distinct (map fst (entries_of st (Labels t0)))"
        "distinct (map fst (entries_of st (Annotations t0)))"
        using Cons.prems(6) by simp_all
      note c = updateSecretData_inner_content [OF a m own tl d]
      have others: "x = NilMap \<or> (\<forall>t \<in> set rest. \<forall>es'. live_match t existingSecrets = Some es'
                          \<longrightarrow> x \<notin> metadata_maps es')" if "x \<in> metadata_maps es" for x
      proof (cases "x = NilMap")
        case True
        then show ?thesis by simp
      next
        case False
        have "x \<notin> metadata_maps es'"
          if t: "t \<in> set rest" and m': "live_match t existingSecrets = Some es'" for t es'
        proof -
          have "(Namespace t0, Name t0) \<noteq> (Namespace t, Name t)"
            using Cons.prems(5) t by force
          then have "es \<noteq> es'" using live_match_other [OF m m'] by simp
          moreover have "es' \<in> set existingSecrets" using live_match_Some [OF m'] by simp
          ultimately have "metadata_maps es \<inter> metadata_maps es' \<subseteq> {NilMap}"
            using sep es_in by (simp add: separate_maps_def)
          then show ?thesis using \<open>x \<in> metadata_maps es\<close> False by auto
        qed
        then show ?thesis by blast
      qed
      have "entries_of st' (Labels es) = entries_of st1 (Labels es)"
        using updateSecretData_entries_frame [OF b others] by (simp add: metadata_maps_def)
      moreover have "entries_of st' (Annotations es) = entries_of st1 (Annotations es)"
        using updateSecretData_entries_frame [OF b others] by (simp add: metadata_maps_def)
      ultimately show ?thesis using c 0 by simp
    next
      case (Suc j)
      have j: "j < length rest" using Cons.prems(2) Suc by simp
      have mj: "live_match (rest ! j) existingSecrets = Some es"
        using Cons.prems(3) Suc by simp
      have tj: "rest ! j \<in> set rest" using j by simp
      have untouched: "entries_of st1 x = entries_of st x"
        if "x = NilMap \<or> (\<forall>es0. live_match t0 existingSecrets = Some es0
                \<longrightarrow> x \<notin> metadata_maps es0)" for x
        using updateSecretData_inner_entries_frame [OF a that] .
      have template_maps: "entries_of st1 x = entries_of st x"
        if "t \<in> set rest" "x \<in> metadata_maps t" for t x
      proof (rule untouched, cases "x = NilMap")
        case True
        then show "x = NilMap \<or> (\<forall>es0. live_match t0 existingSecrets = Some es0
                \<longrightarrow> x \<notin> metadata_maps es0)" by simp
      next
        case False
        have "x \<notin> metadata_maps es0" if m0: "live_match t0 existingSecrets = Some es0" for es0
        proof -
          have "es0 \<in> set existingSecrets" using live_match_Some [OF m0] by simp
          then have "metadata_maps t \<inter> metadata_maps es0 \<subseteq> {NilMap}"
            using sep \<open>t \<in> set rest\<close> by (simp add: separate_maps_def)
          then show ?thesis using \<open>x \<in> metadata_maps t\<close> False by auto
        qed
        then show "x = NilMap \<or> (\<forall>es0. live_match t0 existingSecrets = Some es0
                \<longrightarrow> x \<notin> metadata_maps es0)" by blast
      qed
      have live_maps_kept: "entries_of st1 x = entries_of st x" if "x \<in> metadata_maps es" for x
      proof (rule untouched, cases "x = NilMap")
        case True
        then show "x = NilMap \<or> (\<forall>es0. live_match t0 existingSecrets = Some es0
                \<longrightarrow> x \<notin> metadata_maps es0)" by simp
      next
        case False
        have "x \<notin> metadata_maps es0" if m0: "live_match t0 existingSecrets = Some es0" for es0
        proof -
          have "(Namespace t0, Name t0) \<noteq> (Namespace (rest ! j), Name (rest ! j))"
            using Cons.prems(5) tj by force
          then have "es0 \<noteq> es" using live_match_other [OF m0 mj] by simp
          moreover have "es0 \<in> set existingSecrets" using live_match_Some [OF m0] by simp
          ultimately have "metadata_maps es0 \<inter> metadata_maps es \<subseteq> {NilMap}"
            using sep es_in by (simp add: separate_maps_def)
          then show ?thesis using \<open>x \<in> metadata_maps es\<close> False by auto
        qed
        then show "x = NilMap \<or> (\<forall>es0. live_match t0 existingSecrets = Some es0
                \<longrightarrow> x \<notin> metadata_maps es0)" by blast
      qed
      have d1: "\<forall>t \<in> set rest. distinct (map fst (entries_of st1 (Labels t)))
                              \<and> distinct (map fst (entries_of st1 (Annotations t)))"
        using Cons.prems(6) template_maps by (simp add: metadata_maps_def)
      have keys: "distinct (map (\<lambda>s. (Namespace s, Name s)) rest)"
        using Cons.prems(5) by simp
      note ih = Cons.IH [OF b j mj separate_maps_tail [OF sep] keys d1]
      have "entries_of st1 (Labels es) = entries_of st (Labels es)"
        "entries_of st1 (Annotations es) = entries_of st (Annotations es)"
        using live_maps_kept by (simp_all add: metadata_maps_def)
      moreover have "entries_of st1 (Labels (rest ! j)) = entries_of st (Labels (rest ! j))"
        "entries_of st1 (Annotations (rest ! j)) = entries_of st (Annotations (rest ! j))"
        using template_maps [OF tj] by (simp_all add: metadata_maps_def)
      ultimately show ?thesis using ih Suc by simp
    qed
  qed
  ultimately show ?thesis by simp
qed

text \<open>
  The lemma above is the behaviour the specification documents, for the full program: with
  unshared maps and templates of different keys, the labels and the annotations of the
  reconciled secret are the union of the live and the template entries, the template's
  value standing at a key of both. On the first scenario:
\<close>

lemma updateSecretData_example:
  "updateSecretData [example_template] [example_live] example_store
     = Inr ([example_live], example_store(0 := [(''x'', ''1''), (''y'', ''2'')]))"
  by (simp add: mergeMapStringString_def entries_of_def example_template_def example_live_def
      example_store_def)

lemma updateSecretData_metadata_union_example:
  "map_of (entries_of (example_store(0 := [(''x'', ''1''), (''y'', ''2'')])) (Labels example_live))
     = map_of (entries_of example_store (Labels example_live))
         ++ map_of (entries_of example_store (Labels example_template))"
proof -
  have m: "live_match ([example_template] ! 0) [example_live] = Some example_live"
    by (simp add: live_match_def example_template_def example_live_def)
  have s: "separate_maps [example_template] [example_live]"
    by (simp add: separate_maps_def metadata_maps_def example_template_def example_live_def)
  have d: "\<forall>t \<in> set [example_template].
       distinct (map fst (entries_of example_store (Labels t)))
     \<and> distinct (map fst (entries_of example_store (Annotations t)))"
    by (simp add: entries_of_def example_template_def example_store_def)
  show ?thesis
    using updateSecretData_metadata_union [OF updateSecretData_example _ m s _ d] by simp
qed

text \<open>
  C2. The claim: the reconciled labels are the union of the template's and the live
  secret's. The basic program's updateSecretData merges each map of the template with
  itself and puts the result in place of the live secret's map, so on the first scenario
  the reconciled secret carries the template's labels \<open>{x: 1}\<close> (map object 1) and no
  annotations: the label \<open>y\<close> of the live secret is gone.
\<close>

theorem updateSecretData_basic_drops_live_labels:
  "updateSecretData_basic [example_template] [example_live] example_store
     = Inr ([example_live\<lparr>Annotations := NilMap, Labels := MapAt 1\<rparr>], example_store)
   \<and> entries_of example_store (MapAt 1) = [(''x'', ''1'')]
   \<and> entries_of example_store (Labels example_live) = [(''x'', ''0''), (''y'', ''2'')]"
  by (simp add: mergeAnnotations_def entries_of_def example_template_def example_live_def
      example_store_def)

end
